theory Spec2Isabelle
  imports
    Main
    "HOL-Library.Char_ord"
    "HOL-Library.List_Lexorder"
    "HOL-Library.Sublist"
    "HOL-Library.AList"
    "HOL-Library.Word"
begin

section \<open>Diagnostics\<close>

text \<open>
  The fetch engine reports everything abnormal as \<open>diag.Diagnostics\<close>, an ordered
  sequence of entries. The package is an external library; the entries are modelled as
  records carrying what the engine sets and reads: severity, classification, the wrapped
  error text, summary, details and the resource tag. \<open>Add\<close> is concatenation and
  \<open>HasErrors\<close> asks for an entry of severity error or above.
\<close>

datatype severity = IGNORE | WARNING | ERROR | PANIC

datatype diag_type = INTERNAL | USER | RESOLVING

record diagnostic =
  d_severity :: severity
  d_type :: diag_type
  d_err :: string
  d_summary :: string
  d_details :: string
  d_resource :: string

type_synonym diagnostics = "diagnostic list"

definition WithSeverity :: "severity \<Rightarrow> diagnostic \<Rightarrow> diagnostic" where
  "WithSeverity s d = d\<lparr>d_severity := s\<rparr>"

definition WithSummary :: "string \<Rightarrow> diagnostic \<Rightarrow> diagnostic" where
  "WithSummary s d = d\<lparr>d_summary := s\<rparr>"

definition WithDetails :: "string \<Rightarrow> diagnostic \<Rightarrow> diagnostic" where
  "WithDetails s d = d\<lparr>d_details := s\<rparr>"

definition WithResourceName :: "string \<Rightarrow> diagnostic \<Rightarrow> diagnostic" where
  "WithResourceName s d = d\<lparr>d_resource := s\<rparr>"

definition NewBaseError :: "string \<Rightarrow> diag_type \<Rightarrow> (diagnostic \<Rightarrow> diagnostic) list \<Rightarrow> diagnostic" where
  "NewBaseError err dt opts =
     fold (\<lambda>opt d. opt d) opts
       \<lparr>d_severity = ERROR, d_type = dt, d_err = err, d_summary = [], d_details = [],
        d_resource = []\<rparr>"

definition FromError :: "string \<Rightarrow> diag_type \<Rightarrow> (diagnostic \<Rightarrow> diagnostic) list \<Rightarrow> diagnostics" where
  "FromError err dt opts = [NewBaseError err dt opts]"

definition Add :: "diagnostics \<Rightarrow> diagnostics \<Rightarrow> diagnostics" where
  "Add diags elems = diags @ elems"

definition HasDiags :: "diagnostics \<Rightarrow> bool" where
  "HasDiags diags = (0 < length diags)"

definition isError :: "diagnostic \<Rightarrow> bool" where
  "isError d = (d_severity d = ERROR \<or> d_severity d = PANIC)"

definition HasErrors :: "diagnostics \<Rightarrow> bool" where
  "HasErrors diags = list_ex isError diags"

definition Errors :: "diagnostics \<Rightarrow> nat" where
  "Errors diags = length (filter isError diags)"

definition BySeverity :: "severity list \<Rightarrow> diagnostics \<Rightarrow> diagnostics" where
  "BySeverity sevs diags = filter (\<lambda>d. d_severity d \<in> set sevs) diags"

section \<open>Resource name resolver\<close>

text \<open>
  The catalog \<open>all\<close> is a Go map from resource name to table. Only its keys are used,
  so it is modelled by the list of its keys in the order a \<open>range\<close> loop visits them;
  a map holds each key once, which is the side condition \<open>distinct all\<close> of the
  theorems that need it. The visiting order of a Go map is arbitrary; lemma
  \<open>doGlobResources_catalog_order\<close> shows that the resolver's result does not depend on it.
\<close>

type_synonym catalog = "string list"

text \<open>\<open>strings.Index\<close>: position of the first occurrence, \<open>-1\<close> when there is none.\<close>

fun strings_Index :: "string \<Rightarrow> string \<Rightarrow> int" where
  "strings_Index [] sub = (if sub = [] then 0 else - 1)"
| "strings_Index (c # s) sub =
     (if prefix sub (c # s) then 0
      else (let i = strings_Index s sub in if i < 0 then - 1 else i + 1))"

definition strings_Contains :: "string \<Rightarrow> string \<Rightarrow> bool" where
  "strings_Contains s sub = (0 \<le> strings_Index s sub)"

definition strings_HasPrefix :: "string \<Rightarrow> string \<Rightarrow> bool" where
  "strings_HasPrefix s p = prefix p s"

text \<open>\<open>fmt\<close>'s verb \<open>%q\<close> on a name of printable characters without quotes or backslashes.\<close>

definition quoted :: "string \<Rightarrow> string" where
  "quoted s = [CHR 0x22] @ s @ [CHR 0x22]"

text \<open>
  Modelled from the spec: \<open>cqsort.Unique\<close> (package \<open>internal/sort\<close>) is called by
  \<open>doGlobResources\<close> and is not among the sources; the specification describes its
  result as the canonical sorted, duplicate-free list of the accepted names. Strings are
  ordered byte-wise lexicographically, as Go compares them.
\<close>

definition Unique :: "string list \<Rightarrow> string list" where
  "Unique a = sort (remdups a)"

text \<open>
  \<open>funk.Subtract\<close> (external library): the elements of \<open>x\<close> that do not occur in
  \<open>y\<close>, in the order of \<open>x\<close>. A nil slice is a slice without elements, and the
  result is always a slice.
\<close>

definition Subtract :: "string list \<Rightarrow> string list \<Rightarrow> string list" where
  "Subtract x y = filter (\<lambda>v. v \<notin> set y) x"

definition errInvalidWildcardEnd :: diagnostics where
  "errInvalidWildcardEnd =
     FromError ''invalid wildcard syntax'' USER
       [WithDetails ''resource match should end with `.*`'']"

definition errInvalidWildcardUse :: diagnostics where
  "errInvalidWildcardUse =
     FromError ''invalid wildcard syntax'' USER
       [WithDetails ''you can only use `*` or `resource.*` or full resource name'']"

text \<open>
  \<open>matchResourceGlob\<close> returns the matched names and the diagnostics; on a syntax error
  the names are nil (the empty list).
\<close>

definition matchResourceGlob :: "string \<Rightarrow> catalog \<Rightarrow> string list \<times> diagnostics" where
  "matchResourceGlob pattern all =
     (let wildPos = strings_Index pattern ''.*'' in
      if 0 < wildPos then
        (if wildPos \<noteq> int (length pattern) - 2 then ([], errInvalidWildcardEnd)
         else (filter (\<lambda>k. strings_HasPrefix k (take (nat (wildPos + 1)) pattern)) all, []))
      else if wildPos = 0 \<or> strings_Contains pattern ''*'' then ([], errInvalidWildcardUse)
      else ([], []))"

definition errWildcardInSkip :: diagnostics where
  "errWildcardInSkip =
     FromError ''wildcard resource can only be in the requested resources list'' USER
       [WithDetails ''you can only use * in the resources part of the configuration'']"

definition errEmptyName :: diagnostics where
  "errEmptyName =
     FromError ''invalid resource'' USER [WithDetails ''empty resource names are not allowed'']"

definition errDuplicate :: "string \<Rightarrow> diagnostics" where
  "errDuplicate r =
     FromError (''resource '' @ quoted r @ '' is duplicate'') USER
       [WithDetails ''configuration has duplicate resources'']"

definition errWildcardNotAlone :: diagnostics where
  "errWildcardNotAlone =
     FromError ''wildcard resource must be the only one in the list'' USER
       [WithDetails ''you can only use * or a list of resources in configuration, but not both'']"

definition errDoesNotExist :: "string \<Rightarrow> diagnostics" where
  "errDoesNotExist r =
     FromError (''resource '' @ quoted r @ '' does not exist'') USER
       [WithDetails ''configuration refers to a non-existing resource. Maybe you recently downgraded the provider but kept the config, or a typo perhaps?'']"

text \<open>
  The loop of \<open>doGlobResources\<close> over the requested entries, with the set \<open>seen\<close> and
  the accumulated \<open>result\<close>. \<open>Inl\<close> is an early \<open>return nil, diags\<close>.
\<close>

fun globLoop :: "catalog \<Rightarrow> string list \<Rightarrow> string set \<Rightarrow> string list \<Rightarrow> diagnostics + string list" where
  "globLoop all [] seen result = Inr result"
| "globLoop all (r # rs) seen result =
     (if r = [] then Inl errEmptyName
      else if r \<in> seen then Inl (errDuplicate r)
      else if r \<in> set all then globLoop all rs (insert r seen) (result @ [r])
      else if r = ''*'' then Inl errWildcardNotAlone
      else (case matchResourceGlob r all of (globMatches, diags) \<Rightarrow>
        if HasDiags diags then Inl diags
        else if length globMatches = 0 then Inl (errDoesNotExist r)
        else globLoop all rs (insert r seen) (result @ globMatches)))"

definition doGlobResources :: "string list \<Rightarrow> bool \<Rightarrow> catalog \<Rightarrow> diagnostics + string list" where
  "doGlobResources requested allowWild all =
     (if allowWild then
        (if ''*'' \<in> set requested then Inl errWildcardInSkip
         else map_sum id Unique (globLoop all requested {} []))
      else if length requested = 1 \<and> requested ! 0 = ''*'' then
        map_sum id Unique (globLoop all all {} [])
      else map_sum id Unique (globLoop all requested {} []))"

text \<open>The two components of a Go result \<open>([]string, diag.Diagnostics)\<close>.\<close>

definition names_of :: "diagnostics + string list \<Rightarrow> string list" where
  "names_of r = (case r of Inl d \<Rightarrow> [] | Inr xs \<Rightarrow> xs)"

definition diags_of :: "diagnostics + string list \<Rightarrow> diagnostics" where
  "diags_of r = (case r of Inl d \<Rightarrow> d | Inr xs \<Rightarrow> [])"

definition doNormalizeResources :: "string list \<Rightarrow> string list \<Rightarrow> catalog \<Rightarrow> string list \<times> diagnostics" where
  "doNormalizeResources resources skip all =
     (let u = doGlobResources resources False all;
          s = doGlobResources skip True all
      in (Subtract (names_of u) (names_of s), Add (diags_of u) (diags_of s)))"

section \<open>Fetch summaries\<close>

text \<open>
  Resource counts are \<open>uint64\<close>: 64-bit words, whose addition wraps. The Go maps
  \<open>FetchedResources\<close> and \<open>ProviderFetchSummary\<close> are association lists written with
  \<open>AList.update\<close> (an assignment \<open>m[k] = v\<close> replaces the entry of \<open>k\<close> or adds
  one), so that the methods that range over them can be evaluated. Durations and time
  stamps are not modelled.
\<close>

datatype FetchStatus =
  FetchFailed | FetchConfigureFailed | FetchCanceled | FetchFinished | FetchPartial

type_synonym TelemetryEvent = diagnostic

record ResourceFetchSummary =
  rfs_Status :: string
  rfs_ResourceCount :: "64 word"
  rfs_Diagnostics :: diagnostics
  rfs_TelemetryEvents :: "TelemetryEvent list"

record ProviderFetchSummary =
  pfs_Name :: string
  pfs_Alias :: string
  pfs_Version :: string
  pfs_TotalResourcesFetched :: "64 word"
  pfs_FetchedResources :: "(string \<times> ResourceFetchSummary) list"
  pfs_Status :: FetchStatus

record FetchUpdate =
  fu_Name :: string
  fu_Alias :: string
  fu_Version :: string
  fu_FinishedResources :: "(string \<times> bool) list"
  fu_ResourceCount :: "64 word"
  fu_Error :: string
  fu_DiagnosticCount :: nat

type_synonym uuid = nat

record FetchResponse =
  fr_FetchId :: uuid
  fr_ProviderFetchSummary :: "(string \<times> ProviderFetchSummary) list"
  fr_TotalFetched :: "64 word"
  fr_TelemetryEvents :: "TelemetryEvent list"

text \<open>The record handed to the state client by \<open>SaveFetchSummary\<close>.\<close>

record FetchSummary =
  fs_FetchId :: uuid
  fs_IsSuccess :: bool
  fs_TotalResourceCount :: "64 word"
  fs_TotalErrorsCount :: nat
  fs_ProviderName :: string
  fs_ProviderAlias :: string
  fs_ProviderVersion :: string

definition pfs_String :: "ProviderFetchSummary \<Rightarrow> string" where
  "pfs_String p =
     (if pfs_Alias p \<noteq> [] then pfs_Name p @ ''('' @ pfs_Alias p @ '')'' else pfs_Name p)"

definition pfs_Diagnostics :: "ProviderFetchSummary \<Rightarrow> diagnostics" where
  "pfs_Diagnostics p = concat (map (\<lambda>(r, s). rfs_Diagnostics s) (pfs_FetchedResources p))"

definition fr_HasErrors :: "FetchResponse \<Rightarrow> bool" where
  "fr_HasErrors fr =
     list_ex (\<lambda>(k, p). HasErrors (pfs_Diagnostics p)) (fr_ProviderFetchSummary fr)"

definition createFetchSummary :: "uuid \<Rightarrow> ProviderFetchSummary \<Rightarrow> FetchSummary" where
  "createFetchSummary fetchId ps =
     \<lparr>fs_FetchId = fetchId,
      fs_IsSuccess = (\<not> HasErrors (pfs_Diagnostics ps)),
      fs_TotalResourceCount = pfs_TotalResourcesFetched ps,
      fs_TotalErrorsCount = Errors (pfs_Diagnostics ps),
      fs_ProviderName = pfs_Name ps,
      fs_ProviderAlias = pfs_Alias ps,
      fs_ProviderVersion = pfs_Version ps\<rparr>"

section \<open>Providers and collaborators\<close>

text \<open>
  An error value is identified by its text. A provider plugin is described by what its
  remote procedures answer: the configure call (given the connection string) answers an
  error or the configuration diagnostics, already converted by
  \<open>convertToConfigureDiags\<close>; the schema call answers an error or the catalog; the fetch
  call (given the resolved resource list) answers an error or a stream. A stream is the
  finite sequence of messages that \<open>Recv\<close> delivers, followed by the event that ends it:
  the end-of-stream marker or an error. A provider that never ends its stream keeps
  \<open>executeFetch\<close> from returning and has no description here.
\<close>

type_synonym err = string

datatype stream_end = EOF | RecvErr err

record FetchResourcesResponse =
  msg_ResourceName :: string
  msg_FinishedResources :: "(string \<times> bool) list"
  msg_ResourceCount :: "64 word"
  msg_Error :: string
  msg_Summary_Status :: string
  msg_Summary_ResourceCount :: "64 word"
  msg_Summary_Diagnostics :: diagnostics

type_synonym stream = "FetchResourcesResponse list \<times> stream_end"

record Plugin =
  pl_Version :: string
  pl_ConfigureProvider :: "string \<Rightarrow> err + diagnostics"
  pl_GetProviderSchema :: "err + catalog"
  pl_FetchResources :: "string list \<Rightarrow> err + stream"

record ProviderInfo =
  pi_Provider_Name :: string
  pi_Config_Name :: string
  pi_Config_Alias :: string
  pi_Config_Resources :: "string list"
  pi_Config_SkipResources :: "string list"

text \<open>
  Functions of the repository that the engine calls and whose sources are not at hand
  are parameters of the model: the cancellation predicate and the cancellation diagnostic
  of package \<open>errors\<close>, the conversion of fetch diagnostics, and the test that selects
  the telemetry entries.
\<close>

record collaborators =
  IsCancelation :: "err \<Rightarrow> bool"
  CancelationDiag :: "err \<Rightarrow> diagnostics"
  convertToFetchDiags :: "diagnostics \<Rightarrow> string \<Rightarrow> string \<Rightarrow> diagnostics"
  isTelemetry :: "diagnostic \<Rightarrow> bool"

text \<open>
  Modelled from the spec: \<open>analytics.FilterTelemetryEvents\<close> is not among the sources;
  the specification describes it as a filter that partitions the entries into the
  telemetry events and the remainder returned to the caller.
\<close>

definition FilterTelemetryEvents :: "collaborators \<Rightarrow> diagnostics \<Rightarrow> TelemetryEvent list \<times> diagnostics" where
  "FilterTelemetryEvents co diags =
     (filter (isTelemetry co) diags, filter (\<lambda>d. \<not> isTelemetry co d) diags)"

record FetchEnv =
  env_NewUUID :: "err + uuid"
  env_parseDSN :: "err + string"
  env_hasDeadline :: bool
  env_CreatePlugin :: "ProviderInfo \<Rightarrow> err + Plugin"
  env_SaveFetchSummary :: "FetchSummary \<Rightarrow> err option"

record FetchOptions =
  opt_UpdateCallback :: bool
  opt_ProvidersInfo :: "ProviderInfo list"
  opt_FetchId :: uuid

section \<open>The provider fetch runner\<close>

definition normalizeResources :: "Plugin \<Rightarrow> string list \<Rightarrow> string list \<Rightarrow> string list \<times> diagnostics" where
  "normalizeResources provider resources skip =
     (case pl_GetProviderSchema provider of
        Inl err \<Rightarrow> ([], FromError err INTERNAL [])
      | Inr all \<Rightarrow> doNormalizeResources resources skip all)"

text \<open>
  The receive loop of \<open>executeFetch\<close>. The calls of the progress callback are recorded,
  in order, in the list \<open>ups\<close>; \<open>callback\<close> tells whether one was supplied.
\<close>

fun recvLoop :: "collaborators \<Rightarrow> Plugin \<Rightarrow> ProviderInfo \<Rightarrow> bool \<Rightarrow> FetchResourcesResponse list \<Rightarrow> stream_end \<Rightarrow> ProviderFetchSummary \<Rightarrow> diagnostics \<Rightarrow> FetchUpdate list \<Rightarrow> ProviderFetchSummary \<times> diagnostics \<times> FetchUpdate list" where
  "recvLoop co providerPlugin info callback [] EOF summary diags ups = (summary, diags, ups)"
| "recvLoop co providerPlugin info callback [] (RecvErr err) summary diags ups =
     (let ups' =
        (if callback then
           ups @ [\<lparr>fu_Name = pi_Provider_Name info, fu_Alias = pi_Config_Alias info,
                   fu_Version = pl_Version providerPlugin, fu_FinishedResources = [],
                   fu_ResourceCount = 0, fu_Error = err, fu_DiagnosticCount = length diags\<rparr>]
         else ups)
      in if IsCancelation co err then
           (summary\<lparr>pfs_Status := FetchCanceled\<rparr>, Add diags (CancelationDiag co err), ups')
         else
           (summary\<lparr>pfs_Status := FetchFailed\<rparr>, Add diags (FromError err INTERNAL []), ups'))"
| "recvLoop co providerPlugin info callback (resp # rest) fin summary diags ups =
     (let ups' =
        (if callback then
           ups @ [\<lparr>fu_Name = pi_Provider_Name info, fu_Alias = pi_Config_Alias info,
                   fu_Version = pl_Version providerPlugin,
                   fu_FinishedResources = msg_FinishedResources resp,
                   fu_ResourceCount = msg_ResourceCount resp, fu_Error = [],
                   fu_DiagnosticCount = length (BySeverity [WARNING, ERROR, PANIC] diags)\<rparr>]
         else ups);
        summary1 = summary\<lparr>pfs_TotalResourcesFetched :=
                      pfs_TotalResourcesFetched summary + msg_ResourceCount resp\<rparr>;
        (events, rdiags) = FilterTelemetryEvents co (msg_Summary_Diagnostics resp);
        summary2 = summary1\<lparr>pfs_FetchedResources :=
                      AList.update (msg_ResourceName resp)
                        \<lparr>rfs_Status = msg_Summary_Status resp,
                         rfs_ResourceCount = msg_Summary_ResourceCount resp,
                         rfs_Diagnostics = rdiags, rfs_TelemetryEvents = events\<rparr>
                        (pfs_FetchedResources summary1)\<rparr>;
        diags1 =
          (if msg_Error resp \<noteq> [] then
             Add diags (FromError (msg_Error resp) RESOLVING
                          [WithResourceName (msg_ResourceName resp)])
           else diags);
        diags2 = (if HasDiags rdiags then Add diags1 rdiags else diags1)
      in recvLoop co providerPlugin info callback rest fin summary2 diags2 ups')"

definition executeFetch :: "collaborators \<Rightarrow> Plugin \<Rightarrow> ProviderInfo \<Rightarrow> bool \<Rightarrow> ProviderFetchSummary \<times> diagnostics \<times> FetchUpdate list" where
  "executeFetch co providerPlugin info callback =
     (let summary =
            \<lparr>pfs_Name = pi_Provider_Name info, pfs_Alias = pi_Config_Alias info,
             pfs_Version = pl_Version providerPlugin, pfs_TotalResourcesFetched = 0,
             pfs_FetchedResources = [], pfs_Status = FetchFinished\<rparr>;
          (resources, diags) =
            normalizeResources providerPlugin (pi_Config_Resources info)
              (pi_Config_SkipResources info)
      in if HasErrors diags then (summary\<lparr>pfs_Status := FetchFailed\<rparr>, diags, [])
         else (case pl_FetchResources providerPlugin resources of
             Inl err \<Rightarrow> (summary\<lparr>pfs_Status := FetchFailed\<rparr>, FromError err INTERNAL [], [])
           | Inr (msgs, fin) \<Rightarrow>
               recvLoop co providerPlugin info callback msgs fin summary diags []))"

text \<open>
  \<open>runProviderFetch\<close> returns a nil summary (\<open>None\<close>) when the plugin cannot be
  created.
\<close>

definition runProviderFetch :: "collaborators \<Rightarrow> FetchEnv \<Rightarrow> ProviderInfo \<Rightarrow> string \<Rightarrow> FetchOptions \<Rightarrow> ProviderFetchSummary option \<times> diagnostics \<times> FetchUpdate list" where
  "runProviderFetch co env info dsnURI opts =
     (case env_CreatePlugin env info of
        Inl err \<Rightarrow> (None, FromError err INTERNAL [], [])
      | Inr providerPlugin \<Rightarrow>
          (case pl_ConfigureProvider providerPlugin dsnURI of
             Inl err \<Rightarrow>
               (Some \<lparr>pfs_Name = pi_Provider_Name info, pfs_Alias = pi_Config_Alias info,
                      pfs_Version = pl_Version providerPlugin, pfs_TotalResourcesFetched = 0,
                      pfs_FetchedResources = [],
                      pfs_Status =
                        (if IsCancelation co err then FetchCanceled else FetchConfigureFailed)\<rparr>,
                (if IsCancelation co err then CancelationDiag co err
                 else FromError err INTERNAL []),
                [])
           | Inr respDiagnostics \<Rightarrow>
               (let diags = Add [] respDiagnostics in
                if HasErrors diags then
                  (Some \<lparr>pfs_Name = pi_Provider_Name info, pfs_Alias = pi_Config_Alias info,
                         pfs_Version = pl_Version providerPlugin,
                         pfs_TotalResourcesFetched = 0, pfs_FetchedResources = [],
                         pfs_Status = FetchConfigureFailed\<rparr>,
                   diags, [])
                else
                  (case executeFetch co providerPlugin info (opt_UpdateCallback opts) of
                     (summary, fetchDiags, ups) \<Rightarrow>
                       (Some summary,
                        Add diags
                          (convertToFetchDiags co fetchDiags (pi_Provider_Name info)
                             (pl_Version providerPlugin)),
                        ups)))))"

section \<open>The fetch orchestrator\<close>

text \<open>
  A nil summary is dereferenced where \<open>Fetch\<close> calls a method with a value receiver on
  it (\<open>ps.Diagnostics()\<close> in \<open>createFetchSummary\<close>, \<open>ps.summary.String()\<close> in the loop
  that drains the channel): the Go runtime panics.
\<close>

datatype panic = NilPointerDereference

type_synonym fetchResult = "ProviderFetchSummary option \<times> diagnostics"

text \<open>
  The body of the goroutine started for one provider: the result it sends on the
  channel and the records it hands to the state client.
\<close>

definition worker :: "collaborators \<Rightarrow> FetchEnv \<Rightarrow> uuid \<Rightarrow> string \<Rightarrow> FetchOptions \<Rightarrow> ProviderInfo \<Rightarrow> panic + fetchResult \<times> FetchSummary list" where
  "worker co env fetchId dsnURI opts info =
     (case runProviderFetch co env info dsnURI opts of
        (s, d, ups) \<Rightarrow>
          if env_hasDeadline env then Inr ((s, d), [])
          else (case s of
              None \<Rightarrow> Inl NilPointerDereference
            | Some ps \<Rightarrow>
                (let fsum = createFetchSummary fetchId ps in
                 case env_SaveFetchSummary env fsum of
                   Some err \<Rightarrow> Inr ((s, Add d (FromError err INTERNAL [])), [fsum])
                 | None \<Rightarrow> Inr ((s, d), [fsum]))))"

text \<open>
  The goroutines run concurrently and the channel delivers their results in the order
  they finish. The model runs them in the order of the provider list; the theorems on
  the response are proved for the loop \<open>drain\<close> on any list of results.
\<close>

fun runWorkers :: "(ProviderInfo \<Rightarrow> panic + fetchResult \<times> FetchSummary list) \<Rightarrow> ProviderInfo list \<Rightarrow> panic + fetchResult list \<times> FetchSummary list" where
  "runWorkers w [] = Inr ([], [])"
| "runWorkers w (info # infos) =
     (case w info of
        Inl p \<Rightarrow> Inl p
      | Inr (r, saved) \<Rightarrow>
          (case runWorkers w infos of
             Inl p \<Rightarrow> Inl p
           | Inr (rs, saved') \<Rightarrow> Inr (r # rs, saved @ saved')))"

fun drain :: "fetchResult list \<Rightarrow> FetchResponse \<Rightarrow> diagnostics \<Rightarrow> panic + FetchResponse \<times> diagnostics" where
  "drain [] response diags = Inr (response, diags)"
| "drain ((summary, d) # rest) response diags =
     (case summary of
        None \<Rightarrow> Inl NilPointerDereference
      | Some ps \<Rightarrow>
          drain rest
            (response\<lparr>fr_ProviderFetchSummary :=
                         AList.update (pfs_String ps) ps (fr_ProviderFetchSummary response),
                       fr_TotalFetched := fr_TotalFetched response + pfs_TotalResourcesFetched ps\<rparr>)
            (if HasDiags d then Add diags d else diags))"

definition skipWarning :: "ProviderInfo \<Rightarrow> diagnostics" where
  "skipWarning info =
     FromError [] INTERNAL
       [WithSeverity WARNING,
        WithSummary (''skipping provider '' @ pi_Config_Name info
                     @ '' which configured with 0 resources to fetch'')]"

record FetchOutcome =
  out_res :: "FetchResponse option"
  out_diagnostics :: diagnostics
  out_saved :: "FetchSummary list"

definition Fetch :: "collaborators \<Rightarrow> FetchEnv \<Rightarrow> FetchOptions \<Rightarrow> panic + FetchOutcome" where
  "Fetch co env opts =
     (case (if opt_FetchId opts = 0 then env_NewUUID env else Inr (opt_FetchId opts)) of
        Inl err \<Rightarrow>
          Inr \<lparr>out_res = None, out_diagnostics = FromError err INTERNAL [], out_saved = []\<rparr>
      | Inr fetchId \<Rightarrow>
          (case env_parseDSN env of
             Inl err \<Rightarrow>
               Inr \<lparr>out_res = None, out_diagnostics = FromError err INTERNAL [], out_saved = []\<rparr>
           | Inr dsnURI \<Rightarrow>
               (let skipped = filter (\<lambda>info. length (pi_Config_Resources info) = 0)
                                (opt_ProvidersInfo opts);
                    attempted = filter (\<lambda>info. length (pi_Config_Resources info) \<noteq> 0)
                                  (opt_ProvidersInfo opts);
                    diags = concat (map skipWarning skipped)
                in case runWorkers (worker co env fetchId dsnURI opts) attempted of
                     Inl p \<Rightarrow> Inl p
                   | Inr (results, saved) \<Rightarrow>
                       (case drain results
                               \<lparr>fr_FetchId = fetchId, fr_ProviderFetchSummary = [],
                                fr_TotalFetched = 0, fr_TelemetryEvents = []\<rparr> diags of
                          Inl p \<Rightarrow> Inl p
                        | Inr (response, diags') \<Rightarrow>
                            (case FilterTelemetryEvents co diags' of
                               (events, filtered) \<Rightarrow>
                                 Inr \<lparr>out_res = Some (response\<lparr>fr_TelemetryEvents := events\<rparr>),
                                      out_diagnostics = filtered, out_saved = saved\<rparr>)))))"

section \<open>Notions used in the statements\<close>

text \<open>
  The shape of a valid glob, in the words of the specification: \<open>r\<close> is \<open>prefix.*\<close>
  with a non-empty prefix, and \<open>.*\<close> occurs in \<open>r\<close> only at the very end.
\<close>

definition glob_form :: "string \<Rightarrow> string \<Rightarrow> bool" where
  "glob_form r p = (p \<noteq> [] \<and> r = p @ ''.*'' \<and> \<not> sublist ''.*'' p)"

text \<open>One diagnostic, classified \<open>USER\<close>, of severity error.\<close>

definition is_user_error :: "diagnostics \<Rightarrow> bool" where
  "is_user_error ds = (case ds of [d] \<Rightarrow> d_type d = USER \<and> d_severity d = ERROR | _ \<Rightarrow> False)"

text \<open>
  The display string of the summary that the runner builds for a provider: \<open>String()\<close>
  on the provider's name and the configured alias.
\<close>

definition displayKey :: "ProviderInfo \<Rightarrow> string" where
  "displayKey info =
     (if pi_Config_Alias info \<noteq> [] then pi_Provider_Name info @ ''('' @ pi_Config_Alias info @ '')''
      else pi_Provider_Name info)"

text \<open>The summary with which \<open>executeFetch\<close> starts, and the update it sends on a stream error.\<close>

definition summary0 :: "Plugin \<Rightarrow> ProviderInfo \<Rightarrow> ProviderFetchSummary" where
  "summary0 providerPlugin info =
     \<lparr>pfs_Name = pi_Provider_Name info, pfs_Alias = pi_Config_Alias info,
      pfs_Version = pl_Version providerPlugin, pfs_TotalResourcesFetched = 0,
      pfs_FetchedResources = [], pfs_Status = FetchFinished\<rparr>"

definition errorUpdate :: "Plugin \<Rightarrow> ProviderInfo \<Rightarrow> err \<Rightarrow> nat \<Rightarrow> FetchUpdate" where
  "errorUpdate providerPlugin info err n =
     \<lparr>fu_Name = pi_Provider_Name info, fu_Alias = pi_Config_Alias info,
      fu_Version = pl_Version providerPlugin, fu_FinishedResources = [],
      fu_ResourceCount = 0, fu_Error = err, fu_DiagnosticCount = n\<rparr>"

text \<open>Concrete collaborators, providers and options, on which the theorems are instantiated.\<close>

definition exampleCo :: collaborators where
  "exampleCo =
     \<lparr>IsCancelation = (\<lambda>err. err = ''context canceled''),
      CancelationDiag = (\<lambda>err. FromError err USER [WithSummary ''operation was canceled by user'']),
      convertToFetchDiags = (\<lambda>diags name version. diags),
      isTelemetry = (\<lambda>d. False)\<rparr>"

definition exampleInfo :: ProviderInfo where
  "exampleInfo =
     \<lparr>pi_Provider_Name = ''aws'', pi_Config_Name = ''aws'', pi_Config_Alias = [],
      pi_Config_Resources = [''*''], pi_Config_SkipResources = []\<rparr>"

definition exampleMsg :: FetchResourcesResponse where
  "exampleMsg =
     \<lparr>msg_ResourceName = ''ec2'', msg_FinishedResources = [(''ec2'', True)],
      msg_ResourceCount = 1, msg_Error = ''access denied'', msg_Summary_Status = ''PARTIAL'',
      msg_Summary_ResourceCount = 1,
      msg_Summary_Diagnostics = FromError ''access denied'' RESOLVING [WithResourceName ''ec2'']\<rparr>"

definition examplePlugin :: "stream_end \<Rightarrow> Plugin" where
  "examplePlugin fin =
     \<lparr>pl_Version = ''v0.1.0'',
      pl_ConfigureProvider = (\<lambda>dsnURI. Inr []),
      pl_GetProviderSchema = Inr [''ec2'', ''s3''],
      pl_FetchResources = (\<lambda>resources. Inr ([exampleMsg], fin))\<rparr>"

definition exampleEnv :: "(err + Plugin) \<Rightarrow> bool \<Rightarrow> FetchEnv" where
  "exampleEnv created deadline =
     \<lparr>env_NewUUID = Inr 7, env_parseDSN = Inr ''postgres://localhost/cq'',
      env_hasDeadline = deadline, env_CreatePlugin = (\<lambda>info. created),
      env_SaveFetchSummary = (\<lambda>summary. None)\<rparr>"

definition exampleOpts :: "ProviderInfo list \<Rightarrow> FetchOptions" where
  "exampleOpts infos =
     \<lparr>opt_UpdateCallback = True, opt_ProvidersInfo = infos, opt_FetchId = 0\<rparr>"

text \<open>
  The providers for which \<open>Fetch\<close> starts a runner, the sum of the totals over the
  response map, and the names of the parts of \<open>Fetch\<close>: the fetch identifier, the
  empty response and the warnings for the skipped providers.
\<close>

definition attempted :: "FetchOptions \<Rightarrow> ProviderInfo list" where
  "attempted opts = filter (\<lambda>info. length (pi_Config_Resources info) \<noteq> 0) (opt_ProvidersInfo opts)"

definition summaryTotals :: "FetchResponse \<Rightarrow> 64 word" where
  "summaryTotals fr = sum_list (map (\<lambda>(k, p). pfs_TotalResourcesFetched p) (fr_ProviderFetchSummary fr))"

definition fetchInit :: "uuid \<Rightarrow> FetchResponse" where
  "fetchInit fetchId =
     \<lparr>fr_FetchId = fetchId, fr_ProviderFetchSummary = [], fr_TotalFetched = 0,
      fr_TelemetryEvents = []\<rparr>"

definition skipDiags :: "FetchOptions \<Rightarrow> diagnostics" where
  "skipDiags opts =
     concat (map skipWarning
       (filter (\<lambda>info. length (pi_Config_Resources info) = 0) (opt_ProvidersInfo opts)))"

definition fetchIdOf :: "FetchEnv \<Rightarrow> FetchOptions \<Rightarrow> err + uuid" where
  "fetchIdOf env opts = (if opt_FetchId opts = 0 then env_NewUUID env else Inr (opt_FetchId opts))"

text \<open>
  A provider fails during configuration or normalization: its plugin is created, and
  the configure call returns an error, or configuration diagnostics with errors, or the
  normalization of its resource lists has errors. \<open>runnerDiags\<close> are the diagnostics
  its runner returns.
\<close>

definition failsBeforeFetch :: "FetchEnv \<Rightarrow> string \<Rightarrow> ProviderInfo \<Rightarrow> bool" where
  "failsBeforeFetch env dsnURI info =
     (case env_CreatePlugin env info of
        Inl err \<Rightarrow> False
      | Inr providerPlugin \<Rightarrow>
          (case pl_ConfigureProvider providerPlugin dsnURI of
             Inl err \<Rightarrow> True
           | Inr respDiagnostics \<Rightarrow>
               HasErrors respDiagnostics
               \<or> HasErrors (snd (normalizeResources providerPlugin (pi_Config_Resources info)
                                   (pi_Config_SkipResources info)))))"

definition runnerDiags :: "collaborators \<Rightarrow> FetchEnv \<Rightarrow> ProviderInfo \<Rightarrow> string \<Rightarrow> FetchOptions \<Rightarrow> diagnostics" where
  "runnerDiags co env info dsnURI opts = fst (snd (runProviderFetch co env info dsnURI opts))"

section \<open>Verification\<close>

lemma strings_Index_ge: "- 1 \<le> strings_Index s sub"
  by (induction s) (auto simp: Let_def)

lemma strings_Index_iff:
  "strings_Index s sub = int n \<longleftrightarrow>
     n \<le> length s \<and> prefix sub (drop n s) \<and> (\<forall>i<n. \<not> prefix sub (drop i s))"
proof (induction s arbitrary: n)
  case Nil
  then show ?case by auto
next
  case (Cons c s)
  show ?case
  proof (cases "prefix sub (c # s)")
    case True
    then show ?thesis by (cases n) auto
  next
    case False
    show ?thesis
    proof (cases n)
      case 0
      with False show ?thesis using strings_Index_ge[of s sub] by (auto simp: Let_def)
    next
      case (Suc m)
      have "strings_Index (c # s) sub = int (Suc m) \<longleftrightarrow> strings_Index s sub = int m"
        using False strings_Index_ge[of s sub] by (auto simp: Let_def)
      also have "\<dots> \<longleftrightarrow> m \<le> length s \<and> prefix sub (drop m s) \<and> (\<forall>i<m. \<not> prefix sub (drop i s))"
        by (rule Cons.IH)
      also have "\<dots> \<longleftrightarrow> Suc m \<le> length (c # s) \<and> prefix sub (drop (Suc m) (c # s))
                    \<and> (\<forall>i<Suc m. \<not> prefix sub (drop i (c # s)))"
        using False by (auto simp: less_Suc_eq_0_disj)
      finally show ?thesis using Suc by simp
    qed
  qed
qed

lemma strings_Index_neg_iff:
  "strings_Index s sub < 0 \<longleftrightarrow> \<not> sublist sub s"
  by (induction s) (auto simp: Let_def sublist_Cons_right)

lemma sublist_single: "sublist [c] s \<longleftrightarrow> c \<in> set s"
  by (induction s) (auto simp: sublist_Cons_right)

lemma strings_Contains_star: "strings_Contains s ''*'' \<longleftrightarrow> CHR ''*'' \<in> set s"
  unfolding strings_Contains_def using strings_Index_neg_iff[of s "''*''"]
  by (auto simp: sublist_single not_less[symmetric] simp del: not_less)

lemma first_occ_end:
  assumes "r = p @ ''.*''"
  shows "(\<forall>i<length p. \<not> prefix ''.*'' (drop i r)) \<longleftrightarrow> \<not> sublist ''.*'' p"
proof
  assume a: "\<forall>i<length p. \<not> prefix ''.*'' (drop i r)"
  show "\<not> sublist ''.*'' p"
  proof
    assume "sublist ''.*'' p"
    then obtain ps ss where p: "p = ps @ ''.*'' @ ss" by (auto simp: sublist_def)
    have l: "length ps < length p" using p by simp
    have "drop (length ps) r = ''.*'' @ ss @ ''.*''" using p assms by simp
    then have "prefix ''.*'' (drop (length ps) r)" by simp
    with a l show False by blast
  qed
next
  assume a: "\<not> sublist ''.*'' p"
  show "\<forall>i<length p. \<not> prefix ''.*'' (drop i r)"
  proof (intro allI impI notI)
    fix i assume i: "i < length p" and pr: "prefix ''.*'' (drop i r)"
    obtain x xs where d: "drop i p = x # xs" using i by (cases "drop i p") auto
    have "drop i r = x # xs @ ''.*''" using assms i d by simp
    with pr have "x = CHR ''.''" and "prefix ''*'' (xs @ ''.*'')" by auto
    then obtain xs' where "xs = CHR ''*'' # xs'" by (cases xs) auto
    then have "p = take i p @ ''.*'' @ xs'" using d \<open>x = CHR ''.''\<close>
      by (metis append_Cons append_Nil append_take_drop_id)
    then show False using a by (auto simp: sublist_def)
  qed
qed

lemma wildPos_valid_iff:
  "(0 < strings_Index r ''.*'' \<and> strings_Index r ''.*'' = int (length r) - 2)
     \<longleftrightarrow> (\<exists>p. glob_form r p)"
proof
  assume a: "0 < strings_Index r ''.*'' \<and> strings_Index r ''.*'' = int (length r) - 2"
  define n where "n = length r - 2"
  have n: "strings_Index r ''.*'' = int n" "0 < n" "length r = n + 2" using a by (auto simp: n_def)
  from n(1) have pr: "prefix ''.*'' (drop n r)" and fo: "\<forall>i<n. \<not> prefix ''.*'' (drop i r)"
    by (simp_all add: strings_Index_iff)
  have l2: "length (drop n r) = 2" using n(3) by simp
  from pr obtain zs where zs: "drop n r = ''.*'' @ zs" by (auto simp: prefix_def)
  with l2 have "length (''.*'' @ zs) = 2" by simp
  then have "zs = []" by simp
  with zs have "drop n r = ''.*''" by simp
  then have r: "r = take n r @ ''.*''" by (metis append_take_drop_id)
  have ln: "length (take n r) = n" using n(3) by simp
  have "\<not> sublist ''.*'' (take n r)" using first_occ_end[OF r] fo ln by simp
  moreover have "take n r \<noteq> []" using ln n(2) by auto
  ultimately show "\<exists>p. glob_form r p" using r unfolding glob_form_def by blast
next
  assume "\<exists>p. glob_form r p"
  then obtain p where p: "p \<noteq> []" "r = p @ ''.*''" "\<not> sublist ''.*'' p" by (auto simp: glob_form_def)
  have "\<forall>i<length p. \<not> prefix ''.*'' (drop i r)" using first_occ_end[OF p(2)] p(3) by simp
  moreover have "prefix ''.*'' (drop (length p) r)" using p(2) by simp
  moreover have "length p \<le> length r" using p(2) by simp
  ultimately have "strings_Index r ''.*'' = int (length p)" by (simp add: strings_Index_iff)
  then show "0 < strings_Index r ''.*'' \<and> strings_Index r ''.*'' = int (length r) - 2"
    using p(1,2) by auto
qed

lemma glob_form_unique: "glob_form r p \<Longrightarrow> glob_form r q \<Longrightarrow> p = q"
  by (auto simp: glob_form_def)

lemma matchResourceGlob_valid:
  assumes "glob_form r p"
  shows "matchResourceGlob r all = (filter (\<lambda>k. prefix (p @ ''.'') k) all, [])"
proof -
  have w: "0 < strings_Index r ''.*''" "strings_Index r ''.*'' = int (length r) - 2"
    using wildPos_valid_iff[of r] assms by blast+
  have r: "r = p @ ''.*''" using assms by (simp add: glob_form_def)
  have "nat (strings_Index r ''.*'' + 1) = length p + 1" using w(2) r by simp
  then have "take (nat (strings_Index r ''.*'' + 1)) r = p @ ''.''" using r by simp
  then show ?thesis using w by (simp add: matchResourceGlob_def Let_def strings_HasPrefix_def)
qed

lemma matchResourceGlob_invalid:
  assumes "\<not> (\<exists>p. glob_form r p)"
  shows "matchResourceGlob r all =
     (if CHR ''*'' \<in> set r then
        ([], if 0 < strings_Index r ''.*'' then errInvalidWildcardEnd else errInvalidWildcardUse)
      else ([], []))"
proof -
  have nv: "\<not> (0 < strings_Index r ''.*'' \<and> strings_Index r ''.*'' = int (length r) - 2)"
    using wildPos_valid_iff[of r] assms by blast
  have sub: "0 \<le> strings_Index r ''.*'' \<Longrightarrow> CHR ''*'' \<in> set r"
  proof -
    assume "0 \<le> strings_Index r ''.*''"
    then have "sublist ''.*'' r" using strings_Index_neg_iff[of r "''.*''"] by auto
    then show ?thesis by (auto simp: sublist_def)
  qed
  show ?thesis using nv sub
    by (auto simp: matchResourceGlob_def Let_def strings_Contains_star)
qed

lemma FromError_user [simp]: "is_user_error (FromError e USER [WithDetails s])"
  by (simp add: is_user_error_def FromError_def NewBaseError_def WithDetails_def)

lemma resolver_errors_user [simp]:
  "is_user_error errEmptyName" "is_user_error (errDuplicate r)" "is_user_error errWildcardNotAlone"
  "is_user_error (errDoesNotExist r)" "is_user_error errInvalidWildcardEnd"
  "is_user_error errInvalidWildcardUse" "is_user_error errWildcardInSkip"
  by (simp_all add: errEmptyName_def errDuplicate_def errWildcardNotAlone_def errDoesNotExist_def
      errInvalidWildcardEnd_def errInvalidWildcardUse_def errWildcardInSkip_def)

lemma is_user_error_HasErrors: "is_user_error ds \<Longrightarrow> HasErrors ds"
  by (auto simp: is_user_error_def HasErrors_def isError_def split: list.splits)

lemma is_user_error_HasDiags: "is_user_error ds \<Longrightarrow> HasDiags ds"
  by (auto simp: is_user_error_def HasDiags_def split: list.splits)

lemma matchResourceGlob_cases:
  "(\<exists>p. glob_form r p
      \<and> matchResourceGlob r all = (filter (\<lambda>k. prefix (p @ ''.'') k) all, []))
   \<or> (\<not> (\<exists>p. glob_form r p) \<and> CHR ''*'' \<in> set r
       \<and> (matchResourceGlob r all = ([], errInvalidWildcardEnd)
            \<or> matchResourceGlob r all = ([], errInvalidWildcardUse)))
   \<or> (\<not> (\<exists>p. glob_form r p) \<and> CHR ''*'' \<notin> set r \<and> matchResourceGlob r all = ([], []))"
proof (cases "\<exists>p. glob_form r p")
  case True
  then obtain p where "glob_form r p" by blast
  then show ?thesis using matchResourceGlob_valid by blast
next
  case False
  then show ?thesis using matchResourceGlob_invalid[OF False, of all]
    by (cases "CHR ''*'' \<in> set r") (auto split: if_splits)
qed

lemma matchResourceGlob_diags:
  "matchResourceGlob r all = (ms, ds) \<Longrightarrow> ds = [] \<or> is_user_error ds"
  using matchResourceGlob_cases[of r all] by auto

lemma matchResourceGlob_names:
  "matchResourceGlob r all = (ms, ds) \<Longrightarrow> set ms \<subseteq> set all \<and> [] \<notin> set ms"
  using matchResourceGlob_cases[of r all] by auto

lemma globLoop_Inl_user: "globLoop all rs seen res = Inl d \<Longrightarrow> is_user_error d"
proof (induction rs arbitrary: seen res)
  case Nil
  then show ?case by simp
next
  case (Cons r rs)
  obtain ms ds where m: "matchResourceGlob r all = (ms, ds)" by (cases "matchResourceGlob r all")
  show ?case using Cons.prems Cons.IH m matchResourceGlob_diags[OF m]
    by (auto split: if_splits simp: HasDiags_def)
qed

lemma globLoop_append:
  "globLoop all (xs @ ys) seen res =
     (case globLoop all xs seen res of
        Inl d \<Rightarrow> Inl d
      | Inr res' \<Rightarrow> globLoop all ys (seen \<union> set xs) res')"
proof (induction xs arbitrary: seen res)
  case Nil
  then show ?case by simp
next
  case (Cons r xs)
  have e: "seen \<union> set (r # xs) = insert r seen \<union> set xs" by auto
  show ?case unfolding e by (simp add: Cons.IH split: prod.splits)
qed

lemma globLoop_fails:
  "[] \<in> set rs \<or> \<not> distinct rs \<or> set rs \<inter> seen \<noteq> {} \<Longrightarrow> \<exists>d. globLoop all rs seen res = Inl d"
proof (induction rs arbitrary: seen res)
  case Nil
  then show ?case by simp
next
  case (Cons r rs)
  have rec: "\<And>res'. r \<notin> seen \<Longrightarrow> r \<noteq> [] \<Longrightarrow> \<exists>d. globLoop all rs (insert r seen) res' = Inl d"
  proof -
    fix res' assume "r \<notin> seen" "r \<noteq> []"
    with Cons.prems have "[] \<in> set rs \<or> \<not> distinct rs \<or> set rs \<inter> insert r seen \<noteq> {}" by auto
    then show "\<exists>d. globLoop all rs (insert r seen) res' = Inl d" by (rule Cons.IH)
  qed
  show ?case using rec by (auto split: prod.splits)
qed

lemma globLoop_exact:
  "set rs \<subseteq> set all \<Longrightarrow> distinct rs \<Longrightarrow> set rs \<inter> seen = {} \<Longrightarrow>
     globLoop all rs seen res = (if [] \<in> set rs then Inl errEmptyName else Inr (res @ rs))"
  by (induction rs arbitrary: seen res) auto

lemma globLoop_names:
  "globLoop all rs seen res = Inr res' \<Longrightarrow>
     set res' \<subseteq> set res \<union> set all \<and> ([] \<notin> set res \<longrightarrow> [] \<notin> set res')"
proof (induction rs arbitrary: seen res)
  case Nil
  then show ?case by auto
next
  case (Cons r rs)
  obtain ms ds where m: "matchResourceGlob r all = (ms, ds)" by (cases "matchResourceGlob r all")
  from Cons.prems consider
      (a) "r \<noteq> []" "r \<in> set all" "globLoop all rs (insert r seen) (res @ [r]) = Inr res'"
    | (b) "globLoop all rs (insert r seen) (res @ ms) = Inr res'"
    using m by (auto split: if_splits)
  then show ?case
  proof cases
    case a
    from Cons.IH[OF a(3)] a(1,2) show ?thesis by auto
  next
    case b
    from Cons.IH[OF b] matchResourceGlob_names[OF m] show ?thesis by auto
  qed
qed

lemma Unique_props: "sorted (Unique xs)" "distinct (Unique xs)" "set (Unique xs) = set xs"
  by (simp_all add: Unique_def)

lemma Unique_id: "sorted xs \<Longrightarrow> distinct xs \<Longrightarrow> Unique xs = xs"
  by (simp add: Unique_def sorted_sort_id)

lemma Unique_cong: "set xs = set ys \<Longrightarrow> Unique xs = Unique ys"
  unfolding Unique_def by (metis sorted_list_of_set_sort_remdups)

lemma single_star: "(length xs = Suc 0 \<and> xs ! 0 = a) \<longleftrightarrow> xs = [a]"
  by (cases xs) auto

lemma doGlobResources_requested:
  "doGlobResources requested False all =
     map_sum id Unique (globLoop all (if requested = [''*''] then all else requested) {} [])"
  by (simp add: doGlobResources_def single_star)

lemma doGlobResources_skip:
  "doGlobResources skip True all =
     (if ''*'' \<in> set skip then Inl errWildcardInSkip
      else map_sum id Unique (globLoop all skip {} []))"
  by (simp add: doGlobResources_def)

lemma matchResourceGlob_order:
  assumes "set a = set b"
  shows "snd (matchResourceGlob r a) = snd (matchResourceGlob r b)"
    and "set (fst (matchResourceGlob r a)) = set (fst (matchResourceGlob r b))"
  using assms by (auto simp: matchResourceGlob_def Let_def)

lemma globLoop_order:
  assumes "set a = set b"
  shows "set ra = set rb \<Longrightarrow>
     rel_sum (=) (\<lambda>x y. set x = set y) (globLoop a rs seen ra) (globLoop b rs seen rb)"
proof (induction rs arbitrary: seen ra rb)
  case Nil
  then show ?case by simp
next
  case (Cons r rs)
  obtain ma da where ma: "matchResourceGlob r a = (ma, da)" by (cases "matchResourceGlob r a")
  obtain mb db where mb: "matchResourceGlob r b = (mb, db)" by (cases "matchResourceGlob r b")
  have d: "da = db" and m: "set ma = set mb"
    using matchResourceGlob_order[OF assms, of r] ma mb by simp_all
  have e: "(ma = []) = (mb = [])" using m by (metis set_empty)
  have 1: "rel_sum (=) (\<lambda>x y. set x = set y)
             (globLoop a rs (insert r seen) (ra @ [r])) (globLoop b rs (insert r seen) (rb @ [r]))"
    by (rule Cons.IH) (simp add: Cons.prems)
  have 2: "rel_sum (=) (\<lambda>x y. set x = set y)
             (globLoop a rs (insert r seen) (ra @ ma)) (globLoop b rs (insert r seen) (rb @ mb))"
    by (rule Cons.IH) (simp add: Cons.prems m)
  show ?case using 1 2 assms by (simp add: ma mb d e)
qed

lemma doGlobResources_catalog_order:
  assumes "distinct a" "distinct b" "set a = set b"
  shows "doGlobResources requested allowWild a = doGlobResources requested allowWild b"
proof -
  have g: "map_sum id Unique (globLoop a rs {} []) = map_sum id Unique (globLoop b rs {} [])" for rs
    using globLoop_order[OF assms(3), of "[]" "[]" rs "{}"]
    by (cases "globLoop a rs {} []"; cases "globLoop b rs {} []") (auto intro: Unique_cong)
  have x: "map_sum id Unique (globLoop a a {} []) = map_sum id Unique (globLoop b b {} [])"
    using assms by (auto simp: globLoop_exact intro: Unique_cong)
  show ?thesis using g x by (simp add: doGlobResources_def)
qed

text \<open>
  A catalog may hold the empty string as a resource name. The requested list \<open>["*"]\<close>
  is then replaced by the catalog's names, the loop meets the empty name and the
  resolver fails with the empty-name error instead of returning the catalog.
\<close>

theorem wildcard_alone_empty_name_counterexample:
  "doGlobResources [''*''] False [[]] = Inl errEmptyName \<and> HasErrors errEmptyName
   \<and> doNormalizeResources [''*''] [] [[]] = ([], errEmptyName)"
  by (simp add: doGlobResources_def doNormalizeResources_def names_of_def diags_of_def
      Subtract_def Add_def is_user_error_HasErrors)

text \<open>
  Claim C3, amended. For every resource catalog that has no empty resource name,
  normalizing the requested list \<open>["*"]\<close> succeeds with no diagnostics and returns
  exactly the resource names of the catalog, sorted and free of duplicates.
\<close>

theorem wildcard_alone_expands:
  assumes "distinct all" and "[] \<notin> set all"
  shows "doGlobResources [''*''] False all = Inr (Unique all)
     \<and> doNormalizeResources [''*''] [] all = (Unique all, [])
     \<and> sorted (Unique all) \<and> distinct (Unique all) \<and> set (Unique all) = set all"
proof -
  have 1: "doGlobResources [''*''] False all = Inr (Unique all)"
    using assms by (simp add: doGlobResources_requested globLoop_exact)
  have 2: "doGlobResources [] True all = Inr []"
    by (simp add: doGlobResources_skip Unique_def)
  show ?thesis using 1 2
    by (simp add: doNormalizeResources_def names_of_def diags_of_def Subtract_def Add_def
        Unique_props)
qed

theorem wildcard_alone_expands_witness:
  "distinct [''s3'', ''ec2''] \<and> [] \<notin> set [''s3'', ''ec2'']
   \<and> doGlobResources [''*''] False [''s3'', ''ec2''] = Inr [''ec2'', ''s3'']"
  using wildcard_alone_expands[of "[''s3'', ''ec2'']"] by (simp add: Unique_def)

text \<open>
  Claim C4. The skip list is resolved by the same algorithm as the requested list,
  except that a \<open>"*"\<close> anywhere in it is a user error; the normalized result is the
  requested result minus the skip result, as sets, and the diagnostics of both are
  returned. For the catalog \<open>{ec2, s3, iam.roles, iam.policies}\<close>, in any order,
  requested \<open>["*"]\<close> and skip \<open>["iam.*"]\<close> give exactly \<open>[ec2, s3]\<close>.
\<close>

theorem skip_list_subtracted:
  "(''*'' \<in> set skip \<longrightarrow>
      doGlobResources skip True all = Inl errWildcardInSkip \<and> is_user_error errWildcardInSkip)
   \<and> (''*'' \<notin> set skip \<longrightarrow> doGlobResources skip True all = doGlobResources skip False all)
   \<and> set (fst (doNormalizeResources resources skip all)) =
       set (names_of (doGlobResources resources False all))
         - set (names_of (doGlobResources skip True all))
   \<and> snd (doNormalizeResources resources skip all) =
       diags_of (doGlobResources resources False all) @ diags_of (doGlobResources skip True all)
   \<and> (distinct cat \<and> set cat = {''ec2'', ''s3'', ''iam.roles'', ''iam.policies''} \<longrightarrow>
        doNormalizeResources [''*''] [''iam.*''] cat = ([''ec2'', ''s3''], []))"
proof -
  have a: "''*'' \<notin> set skip \<Longrightarrow> doGlobResources skip True all = doGlobResources skip False all"
    by (auto simp: doGlobResources_requested doGlobResources_skip)
  have ex: "doNormalizeResources [''*''] [''iam.*''] cat = ([''ec2'', ''s3''], [])"
    if c: "distinct cat" "set cat = {''ec2'', ''s3'', ''iam.roles'', ''iam.policies''}"
  proof -
    let ?c = "[''ec2'', ''s3'', ''iam.roles'', ''iam.policies'']"
    have d: "distinct ?c" by simp
    have s: "set cat = set ?c" using c(2) by auto
    have "doNormalizeResources [''*''] [''iam.*''] cat = doNormalizeResources [''*''] [''iam.*''] ?c"
      unfolding doNormalizeResources_def
      by (simp only: doGlobResources_catalog_order[OF c(1) d s])
    also have "\<dots> = ([''ec2'', ''s3''], [])" by code_simp
    finally show ?thesis .
  qed
  show ?thesis using a ex
    by (auto simp: doGlobResources_skip doNormalizeResources_def Let_def Subtract_def Add_def)
qed

theorem skip_list_subtracted_witness:
  "''*'' \<in> set [''s3'', ''*'']
   \<and> doGlobResources [''s3'', ''*''] True [''s3'', ''ec2''] = Inl errWildcardInSkip
   \<and> ''*'' \<notin> set [''s3'']
   \<and> doGlobResources [''s3''] True [''s3'', ''ec2''] = doGlobResources [''s3''] False [''s3'', ''ec2'']
   \<and> distinct [''iam.roles'', ''s3'', ''iam.policies'', ''ec2'']
   \<and> set [''iam.roles'', ''s3'', ''iam.policies'', ''ec2''] = {''ec2'', ''s3'', ''iam.roles'', ''iam.policies''}
   \<and> doNormalizeResources [''*''] [''iam.*''] [''iam.roles'', ''s3'', ''iam.policies'', ''ec2'']
        = ([''ec2'', ''s3''], [])"
  using skip_list_subtracted[of "[''s3'', ''*'']" "[''s3'', ''ec2'']" "[]" "[''iam.roles'', ''s3'', ''iam.policies'', ''ec2'']"]
    skip_list_subtracted[of "[''s3'']" "[''s3'', ''ec2'']" "[]" "[]"]
  by auto

text \<open>
  Claim C5. Let an entry be non-empty, not seen before, not a catalog name and not
  \<open>"*"\<close>. It is a valid glob exactly when it is \<open>prefix.*\<close> with a non-empty prefix
  and its only occurrence of \<open>.*\<close> at the very end (\<open>glob_form\<close>). A valid glob
  contributes exactly the catalog names that begin with \<open>prefix.\<close>, the dot included,
  and fails with the user error "does not exist" when there is none. The entry is
  accepted only when it is a valid glob. Any other entry that contains \<open>*\<close> fails with
  a user error "invalid wildcard syntax", and an entry without \<open>*\<close> fails with "does
  not exist".
\<close>

theorem glob_entry_resolution:
  assumes "r \<noteq> []" and "r \<notin> seen" and "r \<notin> set all" and "r \<noteq> ''*''"
  shows "(\<forall>p. glob_form r p \<longrightarrow>
            globLoop all (r # rs) seen result =
              (if filter (\<lambda>k. prefix (p @ ''.'') k) all = [] then Inl (errDoesNotExist r)
               else globLoop all rs (insert r seen)
                      (result @ filter (\<lambda>k. prefix (p @ ''.'') k) all)))
     \<and> ((\<exists>res. globLoop all [r] seen result = Inr res) \<longrightarrow> (\<exists>p. glob_form r p))
     \<and> (CHR ''*'' \<in> set r \<and> \<not> (\<exists>p. glob_form r p) \<longrightarrow>
          globLoop all (r # rs) seen result = Inl errInvalidWildcardEnd
          \<or> globLoop all (r # rs) seen result = Inl errInvalidWildcardUse)
     \<and> (CHR ''*'' \<notin> set r \<longrightarrow> globLoop all (r # rs) seen result = Inl (errDoesNotExist r))
     \<and> is_user_error errInvalidWildcardEnd \<and> is_user_error errInvalidWildcardUse
     \<and> is_user_error (errDoesNotExist r)"
proof -
  have step: "globLoop all (r # rs') seen result =
      (case matchResourceGlob r all of (globMatches, diags) \<Rightarrow>
        if HasDiags diags then Inl diags
        else if length globMatches = 0 then Inl (errDoesNotExist r)
        else globLoop all rs' (insert r seen) (result @ globMatches))" for rs'
    using assms by simp
  have 1: "globLoop all (r # rs) seen result =
              (if filter (\<lambda>k. prefix (p @ ''.'') k) all = [] then Inl (errDoesNotExist r)
               else globLoop all rs (insert r seen)
                      (result @ filter (\<lambda>k. prefix (p @ ''.'') k) all))"
    if "glob_form r p" for p
    by (simp add: step matchResourceGlob_valid[OF that] HasDiags_def del: globLoop.simps(2))
  have 2: "\<exists>p. glob_form r p" if "globLoop all [r] seen result = Inr res" for res
  proof (rule ccontr)
    assume n: "\<not> (\<exists>p. glob_form r p)"
    show False using that
      by (simp add: step[of "[]"] matchResourceGlob_invalid[OF n] is_user_error_HasDiags
          HasDiags_def del: globLoop.simps(2) split: if_splits)
  qed
  have 3: "globLoop all (r # rs) seen result = Inl errInvalidWildcardEnd
          \<or> globLoop all (r # rs) seen result = Inl errInvalidWildcardUse"
    if "CHR ''*'' \<in> set r" and n: "\<not> (\<exists>p. glob_form r p)"
    using that(1)
    by (simp add: step matchResourceGlob_invalid[OF n] is_user_error_HasDiags
        del: globLoop.simps(2))
  have 4: "globLoop all (r # rs) seen result = Inl (errDoesNotExist r)" if s: "CHR ''*'' \<notin> set r"
  proof -
    have n: "\<not> (\<exists>p. glob_form r p)" using s by (auto simp: glob_form_def)
    show ?thesis using s
      by (simp add: step matchResourceGlob_invalid[OF n] HasDiags_def del: globLoop.simps(2))
  qed
  show ?thesis using 1 2 3 4 by (intro conjI allI impI) (auto simp del: globLoop.simps)
qed

theorem glob_entry_resolution_witness:
  "''foo.*'' \<noteq> [] \<and> ''foo.*'' \<notin> {} \<and> ''foo.*'' \<notin> set [''foo.a'', ''foo.b'', ''bar.c'']
   \<and> ''foo.*'' \<noteq> ''*'' \<and> glob_form ''foo.*'' ''foo''
   \<and> globLoop [''foo.a'', ''foo.b'', ''bar.c''] [''foo.*''] {} [] = Inr [''foo.a'', ''foo.b'']
   \<and> globLoop [''bar.c''] [''foo.*''] {} [] = Inl (errDoesNotExist ''foo.*'')
   \<and> CHR ''*'' \<in> set ''a.*.*'' \<and> \<not> (\<exists>p. glob_form ''a.*.*'' p)
   \<and> globLoop [''a.b''] [''a.*.*''] {} [] = Inl errInvalidWildcardEnd
   \<and> CHR ''*'' \<notin> set ''vpc''
   \<and> globLoop [''ec2''] [''vpc''] {} [] = Inl (errDoesNotExist ''vpc'')"
proof -
  have g: "glob_form ''foo.*'' ''foo''"
    by (simp add: glob_form_def sublist_Cons_right)
  have n: "\<not> (\<exists>p. glob_form ''a.*.*'' p)"
    by (auto simp: glob_form_def sublist_Cons_right)
  have 1: "globLoop [''foo.a'', ''foo.b'', ''bar.c''] [''foo.*''] {} [] = Inr [''foo.a'', ''foo.b'']"
    using glob_entry_resolution[of "''foo.*''" "{}" "[''foo.a'', ''foo.b'', ''bar.c'']" "[]" "[]"] g
    by simp
  have 2: "globLoop [''bar.c''] [''foo.*''] {} [] = Inl (errDoesNotExist ''foo.*'')"
    using glob_entry_resolution[of "''foo.*''" "{}" "[''bar.c'']" "[]" "[]"] g
    by simp
  have 3: "globLoop [''a.b''] [''a.*.*''] {} [] = Inl errInvalidWildcardEnd"
    by code_simp
  have 4: "globLoop [''ec2''] [''vpc''] {} [] = Inl (errDoesNotExist ''vpc'')"
    using glob_entry_resolution[of "''vpc''" "{}" "[''ec2'']" "[]" "[]"]
    by simp
  show ?thesis using g n 1 2 3 4 by simp
qed

text \<open>
  The loop returns at the first entry it rejects. In \<open>["b", "a", "a"]\<close> against the
  catalog \<open>{a}\<close> the unknown name \<open>b\<close> comes first: the list holds an entry twice
  and the error is "does not exist", not the duplicate error.
\<close>

theorem duplicate_after_unknown_counterexample:
  "\<not> distinct [''b'', ''a'', ''a'']
   \<and> doGlobResources [''b'', ''a'', ''a''] False [''a''] = Inl (errDoesNotExist ''b'')
   \<and> errDoesNotExist ''b'' \<noteq> errDuplicate ''a''"
  by (simp add: doGlobResources_def matchResourceGlob_def strings_Contains_def HasDiags_def
      errDoesNotExist_def errDuplicate_def FromError_def NewBaseError_def WithDetails_def)

text \<open>
  Claim C6, amended. For every list that holds an empty entry or the same entry twice,
  \<open>doGlobResources\<close> fails with one user-classified error diagnostic and returns a nil
  list, and \<open>doNormalizeResources\<close> on such a requested list returns an empty list
  and error diagnostics. The diagnostic is the empty-name error (for an empty entry) or
  the duplicate error (for a repeated entry) when that entry is the first one rejected:
  when the loop accepts every entry before it and, for the skip list, the list has no
  \<open>"*"\<close>.
\<close>

theorem empty_or_duplicate_rejected:
  "(([] \<in> set requested \<or> \<not> distinct requested) \<longrightarrow>
      (\<exists>d. doGlobResources requested allowWild all = Inl d \<and> is_user_error d)
      \<and> fst (doNormalizeResources requested skip all) = []
      \<and> HasErrors (snd (doNormalizeResources requested skip all)))
   \<and> ((allowWild \<longrightarrow> ''*'' \<notin> set (pre @ r # post))
        \<and> (\<exists>res. globLoop all pre {} [] = Inr res) \<longrightarrow>
          (r = [] \<longrightarrow> doGlobResources (pre @ r # post) allowWild all = Inl errEmptyName)
          \<and> (r \<noteq> [] \<and> r \<in> set pre \<longrightarrow>
               doGlobResources (pre @ r # post) allowWild all = Inl (errDuplicate r)))"
proof -
  have A: "\<exists>d. doGlobResources requested w all = Inl d \<and> is_user_error d"
    if h: "[] \<in> set requested \<or> \<not> distinct requested" for w
  proof -
    have ne: "requested \<noteq> [''*'']" using h by auto
    obtain d where d: "globLoop all requested {} [] = Inl d"
      using globLoop_fails[of requested "{}" all "[]"] h by auto
    have u: "is_user_error d" using d by (rule globLoop_Inl_user)
    show ?thesis
    proof (cases w)
      case True
      then show ?thesis using d u by (auto simp: doGlobResources_skip)
    next
      case False
      then show ?thesis using d u ne by (simp add: doGlobResources_requested)
    qed
  qed
  have A2: "fst (doNormalizeResources requested skip all) = []
      \<and> HasErrors (snd (doNormalizeResources requested skip all))"
    if h: "[] \<in> set requested \<or> \<not> distinct requested"
  proof -
    obtain d where "doGlobResources requested False all = Inl d" "is_user_error d"
      using A[OF h, of False] by blast
    then show ?thesis using is_user_error_HasErrors[of d]
      by (auto simp: doNormalizeResources_def Let_def names_of_def diags_of_def Subtract_def Add_def
          HasErrors_def)
  qed
  have B: "doGlobResources (pre @ r # post) allowWild all =
             (if r = [] then Inl errEmptyName else Inl (errDuplicate r))"
    if w: "allowWild \<longrightarrow> ''*'' \<notin> set (pre @ r # post)"
      and acc: "globLoop all pre {} [] = Inr res" and r: "r = [] \<or> r \<in> set pre" for res
  proof -
    have ne: "pre @ r # post \<noteq> [''*'']"
    proof
      assume e: "pre @ r # post = [''*'']"
      then have "pre = []" by (cases pre) auto
      with e r show False by auto
    qed
    have "globLoop all (pre @ r # post) {} [] =
            (if r = [] then Inl errEmptyName else Inl (errDuplicate r))"
      using acc r by (auto simp: globLoop_append)
    then show ?thesis using w ne
      by (cases allowWild) (auto simp: doGlobResources_skip doGlobResources_requested)
  qed
  show ?thesis using A A2 B by (intro conjI impI) (auto simp del: globLoop.simps)
qed

theorem empty_or_duplicate_rejected_witness:
  "\<not> distinct [''a'', ''a'']
   \<and> doGlobResources [''a'', ''a''] False [''a''] = Inl (errDuplicate ''a'')
   \<and> [] \<in> set [''a'', []]
   \<and> doGlobResources [''a'', []] True [''a''] = Inl errEmptyName
   \<and> fst (doNormalizeResources [''a'', ''a''] [] [''a'']) = []"
proof -
  have acc: "\<exists>res. globLoop [''a''] [''a''] {} [] = Inr res" by simp
  show ?thesis
    using empty_or_duplicate_rejected[of "[''a'', ''a'']" False "[''a'']" "[]" "[''a'']" "''a''" "[]"]
      empty_or_duplicate_rejected[of "[''a'', []]" True "[''a'']" "[]" "[''a'']" "[]" "[]"] acc
    by simp
qed

text \<open>
  A catalog may hold a resource named \<open>*\<close>. With the catalog \<open>{*, a}\<close>, requested
  \<open>["*"]\<close> and skip \<open>["a"]\<close> the result is the list \<open>["*"]\<close>; normalizing that
  list again expands it to the whole catalog.
\<close>

theorem renormalize_star_counterexample:
  "doNormalizeResources [''*''] [''a''] [''*'', ''a''] = ([''*''], [])
   \<and> doNormalizeResources [''*''] [] [''*'', ''a''] = ([''*'', ''a''], [])
   \<and> [''*'', ''a''] \<noteq> [''*'']"
  by code_simp

lemma doGlobResources_Inr_props:
  assumes "doGlobResources requested w all = Inr xs"
  shows "sorted xs \<and> distinct xs \<and> set xs \<subseteq> set all \<and> [] \<notin> set xs"
proof -
  from assms obtain rs res where g: "globLoop all rs {} [] = Inr res" and x: "xs = Unique res"
    by (auto simp: doGlobResources_def map_sum_def split: if_splits sum.splits)
  from globLoop_names[OF g] show ?thesis using x by (auto simp: Unique_props)
qed

text \<open>
  Claim C8, amended. For every catalog and every requested and skip list on which
  \<open>doNormalizeResources\<close> succeeds with a result other than the list \<open>["*"]\<close>,
  running it again on its own result with an empty skip list succeeds and returns the
  same list.
\<close>

theorem doNormalizeResources_idempotent:
  assumes "doNormalizeResources resources skip all = (out, diags)"
    and "\<not> HasErrors diags" and "out \<noteq> [''*'']"
  shows "doNormalizeResources out [] all = (out, [])"
proof -
  obtain us where u: "doGlobResources resources False all = Inr us"
  proof (cases "doGlobResources resources False all")
    case (Inl d)
    then have "is_user_error d"
      by (auto simp: doGlobResources_def map_sum_def split: if_splits sum.splits
          dest: globLoop_Inl_user)
    with Inl assms(1,2) have False
      by (auto simp: doNormalizeResources_def Let_def diags_of_def Add_def HasErrors_def
          dest!: is_user_error_HasErrors)
    then show ?thesis ..
  next
    case (Inr us)
    then show ?thesis using that by blast
  qed
  have out: "out = Subtract us (names_of (doGlobResources skip True all))"
    using assms(1) u by (simp add: doNormalizeResources_def Let_def names_of_def)
  have p: "sorted us \<and> distinct us \<and> set us \<subseteq> set all \<and> [] \<notin> set us"
    using doGlobResources_Inr_props[OF u] .
  have so: "sorted out" using p unfolding out Subtract_def by (simp add: sorted_wrt_filter)
  have po: "distinct out" "set out \<subseteq> set all" "[] \<notin> set out"
    using p unfolding out Subtract_def by auto
  have "globLoop all out {} [] = Inr out" using po by (simp add: globLoop_exact)
  then have 1: "doGlobResources out False all = Inr out"
    using assms(3) so po(1) by (simp add: doGlobResources_requested Unique_id)
  have 2: "doGlobResources [] True all = Inr []"
    by (simp add: doGlobResources_skip Unique_def)
  show ?thesis using 1 2
    by (simp add: doNormalizeResources_def names_of_def diags_of_def Subtract_def Add_def)
qed

theorem doNormalizeResources_idempotent_witness:
  "doNormalizeResources [''*''] [''iam.*''] [''ec2'', ''s3'', ''iam.roles'', ''iam.policies'']
     = ([''ec2'', ''s3''], [])
   \<and> \<not> HasErrors [] \<and> [''ec2'', ''s3''] \<noteq> [''*'']
   \<and> doNormalizeResources [''ec2'', ''s3''] [] [''ec2'', ''s3'', ''iam.roles'', ''iam.policies'']
     = ([''ec2'', ''s3''], [])"
proof -
  have 1: "doNormalizeResources [''*''] [''iam.*''] [''ec2'', ''s3'', ''iam.roles'', ''iam.policies'']
     = ([''ec2'', ''s3''], [])" by code_simp
  have 2: "\<not> HasErrors []" by (simp add: HasErrors_def)
  show ?thesis using doNormalizeResources_idempotent[OF 1 2] 1 2 by simp
qed

subsection \<open>The receive loop\<close>

lemma recvLoop_fields:
  "recvLoop co pl info cb msgs fin s d u = (s', d', u') \<Longrightarrow>
     pfs_Name s' = pfs_Name s \<and> pfs_Alias s' = pfs_Alias s \<and> pfs_Version s' = pfs_Version s"
proof (induction msgs arbitrary: s d u)
  case Nil
  then show ?case by (cases fin) (auto simp: Let_def split: if_splits)
next
  case (Cons m msgs)
  from Cons.prems show ?case
    by (auto simp: Let_def FilterTelemetryEvents_def dest!: Cons.IH)
qed

lemma recvLoop_EOF_status:
  "recvLoop co pl info cb msgs EOF s d u = (s', d', u') \<Longrightarrow> pfs_Status s' = pfs_Status s"
proof (induction msgs arbitrary: s d u)
  case Nil
  then show ?case by auto
next
  case (Cons m msgs)
  from Cons.prems show ?case
    by (auto simp: Let_def FilterTelemetryEvents_def dest!: Cons.IH)
qed

lemma recvLoop_RecvErr:
  "recvLoop co pl info cb msgs (RecvErr err) s d u =
     (case recvLoop co pl info cb msgs EOF s d u of
        (s', d', u') \<Rightarrow>
          (s'\<lparr>pfs_Status := (if IsCancelation co err then FetchCanceled else FetchFailed)\<rparr>,
           d' @ (if IsCancelation co err then CancelationDiag co err else FromError err INTERNAL []),
           u' @ (if cb then [errorUpdate pl info err (length d')] else [])))"
proof (induction msgs arbitrary: s d u)
  case Nil
  then show ?case by (simp add: Let_def Add_def errorUpdate_def)
next
  case (Cons m msgs)
  show ?case by (simp add: Let_def FilterTelemetryEvents_def Cons.IH)
qed

lemma recvLoop_status_cases:
  assumes "recvLoop co pl info cb msgs fin s d u = (s', d', u')"
  shows "pfs_Status s' = (case fin of EOF \<Rightarrow> pfs_Status s
           | RecvErr err \<Rightarrow> if IsCancelation co err then FetchCanceled else FetchFailed)"
proof (cases fin)
  case EOF
  then show ?thesis using assms recvLoop_EOF_status by simp
next
  case (RecvErr err)
  then show ?thesis using assms
    by (auto simp: recvLoop_RecvErr split: prod.splits)
qed

subsection \<open>executeFetch and runProviderFetch\<close>

lemma executeFetch_fields:
  assumes "executeFetch co pl info cb = (s, d, u)"
  shows "pfs_Name s = pi_Provider_Name info \<and> pfs_Alias s = pi_Config_Alias info"
  using assms
  by (auto simp: executeFetch_def Let_def split: prod.splits if_splits sum.splits
      dest!: recvLoop_fields)

lemma executeFetch_status:
  assumes "executeFetch co pl info cb = (s, d, u)"
  shows "pfs_Status s \<in> {FetchFailed, FetchCanceled, FetchFinished}"
  using assms
  by (auto simp: executeFetch_def Let_def split: prod.splits if_splits sum.splits stream_end.splits
      dest!: recvLoop_status_cases)

lemma runProviderFetch_fields:
  assumes "runProviderFetch co env info dsnURI opts = (Some s, d, u)"
  shows "pfs_Name s = pi_Provider_Name info \<and> pfs_Alias s = pi_Config_Alias info"
  using assms
  by (auto simp: runProviderFetch_def Let_def split: prod.splits if_splits sum.splits
      dest!: executeFetch_fields)

lemma runProviderFetch_displayKey:
  assumes "runProviderFetch co env info dsnURI opts = (Some s, d, u)"
  shows "pfs_String s = displayKey info"
  using runProviderFetch_fields[OF assms] by (simp add: pfs_String_def displayKey_def)

lemma runProviderFetch_status:
  assumes "runProviderFetch co env info dsnURI opts = (Some s, d, u)"
  shows "pfs_Status s \<in> {FetchFailed, FetchConfigureFailed, FetchCanceled, FetchFinished}"
  using assms
  by (auto simp: runProviderFetch_def Let_def split: prod.splits if_splits sum.splits
      dest!: executeFetch_status)

text \<open>
  Claim C7. When the configure call returns an error, the runner returns a summary
  without resources whose status is \<open>Canceled\<close> exactly when the cancellation
  predicate recognizes the error, with the cancellation diagnostic; otherwise the status
  is \<open>ConfigureFailed\<close> and the diagnostic is the \<open>INTERNAL\<close> error wrapping it. When
  the stream ends with an error, \<open>executeFetch\<close> returns the summary, the diagnostics
  and the callback calls accumulated from the messages received so far (what the
  end-of-stream marker would have returned at this point), with the status set to
  \<open>Canceled\<close> exactly when the predicate recognizes the error and to \<open>Failed\<close>
  otherwise, the cancellation diagnostic or the \<open>INTERNAL\<close> diagnostic appended, and,
  if a callback was supplied, one more call carrying the error text.
\<close>

theorem rpc_error_status:
  "(env_CreatePlugin env info = Inr pl \<and> pl_ConfigureProvider pl dsnURI = Inl err \<longrightarrow>
      (\<exists>s d. runProviderFetch co env info dsnURI opts = (Some s, d, [])
         \<and> pfs_FetchedResources s = []
         \<and> (pfs_Status s = FetchCanceled \<longleftrightarrow> IsCancelation co err)
         \<and> (IsCancelation co err \<longrightarrow> d = CancelationDiag co err)
         \<and> (\<not> IsCancelation co err \<longrightarrow>
               pfs_Status s = FetchConfigureFailed \<and> d = FromError err INTERNAL [])))
   \<and> (normalizeResources pl (pi_Config_Resources info) (pi_Config_SkipResources info)
         = (resources, ndiags)
       \<and> \<not> HasErrors ndiags \<and> pl_FetchResources pl resources = Inr (msgs, RecvErr err) \<longrightarrow>
         (case recvLoop co pl info callback msgs EOF (summary0 pl info) ndiags [] of
            (s0, d0, u0) \<Rightarrow>
              executeFetch co pl info callback =
                (s0\<lparr>pfs_Status := (if IsCancelation co err then FetchCanceled else FetchFailed)\<rparr>,
                 d0 @ (if IsCancelation co err then CancelationDiag co err
                       else FromError err INTERNAL []),
                 u0 @ (if callback then [errorUpdate pl info err (length d0)] else [])))
         \<and> (pfs_Status (fst (executeFetch co pl info callback)) = FetchCanceled
              \<longleftrightarrow> IsCancelation co err)
         \<and> (\<not> IsCancelation co err \<longrightarrow>
              pfs_Status (fst (executeFetch co pl info callback)) = FetchFailed))
   \<and> FromError err INTERNAL [] =
       [\<lparr>d_severity = ERROR, d_type = INTERNAL, d_err = err, d_summary = [], d_details = [],
         d_resource = []\<rparr>]"
proof -
  have cfg: "\<exists>s d. runProviderFetch co env info dsnURI opts = (Some s, d, [])
         \<and> pfs_FetchedResources s = []
         \<and> (pfs_Status s = FetchCanceled \<longleftrightarrow> IsCancelation co err)
         \<and> (IsCancelation co err \<longrightarrow> d = CancelationDiag co err)
         \<and> (\<not> IsCancelation co err \<longrightarrow>
               pfs_Status s = FetchConfigureFailed \<and> d = FromError err INTERNAL [])"
    if "env_CreatePlugin env info = Inr pl" "pl_ConfigureProvider pl dsnURI = Inl err"
    using that by (simp add: runProviderFetch_def)
  have ex: "executeFetch co pl info callback =
      (case recvLoop co pl info callback msgs EOF (summary0 pl info) ndiags [] of
         (s0, d0, u0) \<Rightarrow>
                (s0\<lparr>pfs_Status := (if IsCancelation co err then FetchCanceled else FetchFailed)\<rparr>,
                 d0 @ (if IsCancelation co err then CancelationDiag co err
                       else FromError err INTERNAL []),
                 u0 @ (if callback then [errorUpdate pl info err (length d0)] else [])))"
    if "normalizeResources pl (pi_Config_Resources info) (pi_Config_SkipResources info)
         = (resources, ndiags)" "\<not> HasErrors ndiags"
       "pl_FetchResources pl resources = Inr (msgs, RecvErr err)"
    using that by (simp add: executeFetch_def recvLoop_RecvErr summary0_def)
  have fe: "FromError err INTERNAL [] =
       [\<lparr>d_severity = ERROR, d_type = INTERNAL, d_err = err, d_summary = [], d_details = [],
         d_resource = []\<rparr>]"
    by (simp add: FromError_def NewBaseError_def)
  show ?thesis
  proof (intro conjI impI)
    assume "env_CreatePlugin env info = Inr pl \<and> pl_ConfigureProvider pl dsnURI = Inl err"
    then show "\<exists>s d. runProviderFetch co env info dsnURI opts = (Some s, d, [])
         \<and> pfs_FetchedResources s = []
         \<and> (pfs_Status s = FetchCanceled \<longleftrightarrow> IsCancelation co err)
         \<and> (IsCancelation co err \<longrightarrow> d = CancelationDiag co err)
         \<and> (\<not> IsCancelation co err \<longrightarrow>
               pfs_Status s = FetchConfigureFailed \<and> d = FromError err INTERNAL [])"
      using cfg by blast
  next
    assume a: "normalizeResources pl (pi_Config_Resources info) (pi_Config_SkipResources info)
         = (resources, ndiags) \<and> \<not> HasErrors ndiags
         \<and> pl_FetchResources pl resources = Inr (msgs, RecvErr err)"
    obtain s0 d0 u0 where r: "recvLoop co pl info callback msgs EOF (summary0 pl info) ndiags []
        = (s0, d0, u0)" by (metis prod_cases3)
    have e: "executeFetch co pl info callback =
                (s0\<lparr>pfs_Status := (if IsCancelation co err then FetchCanceled else FetchFailed)\<rparr>,
                 d0 @ (if IsCancelation co err then CancelationDiag co err
                       else FromError err INTERNAL []),
                 u0 @ (if callback then [errorUpdate pl info err (length d0)] else []))"
      using ex a r by simp
    show "case recvLoop co pl info callback msgs EOF (summary0 pl info) ndiags [] of
            (s0, d0, u0) \<Rightarrow>
              executeFetch co pl info callback =
                (s0\<lparr>pfs_Status := (if IsCancelation co err then FetchCanceled else FetchFailed)\<rparr>,
                 d0 @ (if IsCancelation co err then CancelationDiag co err
                       else FromError err INTERNAL []),
                 u0 @ (if callback then [errorUpdate pl info err (length d0)] else []))"
      using e r by simp
    show "pfs_Status (fst (executeFetch co pl info callback)) = FetchCanceled
              \<longleftrightarrow> IsCancelation co err"
      using e by simp
    show "pfs_Status (fst (executeFetch co pl info callback)) = FetchFailed"
      if "\<not> IsCancelation co err" using e that by simp
  next
    show "FromError err INTERNAL [] =
       [\<lparr>d_severity = ERROR, d_type = INTERNAL, d_err = err, d_summary = [], d_details = [],
         d_resource = []\<rparr>]" by (rule fe)
  qed
qed

lemma example_normalize:
  "normalizeResources (examplePlugin fin) (pi_Config_Resources exampleInfo)
     (pi_Config_SkipResources exampleInfo) = ([''ec2'', ''s3''], [])"
  by (simp add: normalizeResources_def examplePlugin_def exampleInfo_def doNormalizeResources_def
      doGlobResources_def Unique_def names_of_def diags_of_def Subtract_def Add_def)

theorem rpc_error_status_witness:
  "env_CreatePlugin (exampleEnv (Inr ((examplePlugin EOF)\<lparr>pl_ConfigureProvider := (\<lambda>dsnURI. Inl ''context canceled'')\<rparr>)) False) exampleInfo
      = Inr ((examplePlugin EOF)\<lparr>pl_ConfigureProvider := (\<lambda>dsnURI. Inl ''context canceled'')\<rparr>)
   \<and> IsCancelation exampleCo ''context canceled''
   \<and> pfs_Status (the (fst (runProviderFetch exampleCo
        (exampleEnv (Inr ((examplePlugin EOF)\<lparr>pl_ConfigureProvider := (\<lambda>dsnURI. Inl ''context canceled'')\<rparr>)) False)
        exampleInfo ''dsn'' (exampleOpts [exampleInfo])))) = FetchCanceled
   \<and> normalizeResources (examplePlugin (RecvErr ''connection reset''))
        (pi_Config_Resources exampleInfo) (pi_Config_SkipResources exampleInfo)
        = ([''ec2'', ''s3''], [])
   \<and> \<not> HasErrors []
   \<and> pl_FetchResources (examplePlugin (RecvErr ''connection reset'')) [''ec2'', ''s3'']
        = Inr ([exampleMsg], RecvErr ''connection reset'')
   \<and> \<not> IsCancelation exampleCo ''connection reset''
   \<and> pfs_Status (fst (executeFetch exampleCo (examplePlugin (RecvErr ''connection reset''))
        exampleInfo True)) = FetchFailed
   \<and> pfs_TotalResourcesFetched (fst (executeFetch exampleCo
        (examplePlugin (RecvErr ''connection reset'')) exampleInfo True)) = 1"
proof -
  let ?pc = "(examplePlugin EOF)\<lparr>pl_ConfigureProvider := (\<lambda>dsnURI. Inl ''context canceled'')\<rparr>"
  let ?pe = "examplePlugin (RecvErr ''connection reset'')"
  have c: "IsCancelation exampleCo ''context canceled''"
    and n: "\<not> IsCancelation exampleCo ''connection reset''"
    by (simp_all add: exampleCo_def)
  have h1: "env_CreatePlugin (exampleEnv (Inr ?pc) False) exampleInfo = Inr ?pc
      \<and> pl_ConfigureProvider ?pc ''dsn'' = Inl ''context canceled''"
    by (simp add: exampleEnv_def)
  have h2: "normalizeResources ?pe (pi_Config_Resources exampleInfo)
        (pi_Config_SkipResources exampleInfo) = ([''ec2'', ''s3''], [])
      \<and> \<not> HasErrors []
      \<and> pl_FetchResources ?pe [''ec2'', ''s3''] = Inr ([exampleMsg], RecvErr ''connection reset'')"
    by (simp add: example_normalize HasErrors_def) (simp add: examplePlugin_def)
  have t: "pfs_TotalResourcesFetched
      (fst (recvLoop exampleCo ?pe exampleInfo True [exampleMsg] EOF (summary0 ?pe exampleInfo) [] []))
      = 1"
    by (simp add: Let_def FilterTelemetryEvents_def summary0_def exampleMsg_def)
  from rpc_error_status[where env = "exampleEnv (Inr ?pc) False" and info = exampleInfo
      and pl = ?pc and dsnURI = "''dsn''" and err = "''context canceled''" and co = exampleCo
      and opts = "exampleOpts [exampleInfo]" and resources = "[]" and ndiags = "[]"
      and msgs = "[]" and callback = True]
    h1 c
  have 1: "pfs_Status (the (fst (runProviderFetch exampleCo (exampleEnv (Inr ?pc) False)
        exampleInfo ''dsn'' (exampleOpts [exampleInfo])))) = FetchCanceled"
    by auto
  from rpc_error_status[where env = "exampleEnv (Inr ?pe) False" and info = exampleInfo
      and pl = ?pe and dsnURI = "''dsn''" and opts = "exampleOpts [exampleInfo]"
      and err = "''connection reset''" and co = exampleCo and resources = "[''ec2'', ''s3'']"
      and ndiags = "[]" and msgs = "[exampleMsg]" and callback = True]
    h2 n t
  have 2: "pfs_Status (fst (executeFetch exampleCo ?pe exampleInfo True)) = FetchFailed
     \<and> pfs_TotalResourcesFetched (fst (executeFetch exampleCo ?pe exampleInfo True)) = 1"
    by (auto split: prod.splits)
  show ?thesis using h1 h2 c n 1 2 by simp
qed

text \<open>
  Claim C9. Every summary returned by \<open>runProviderFetch\<close> or \<open>executeFetch\<close> has one
  of the statuses \<open>Failed\<close>, \<open>ConfigureFailed\<close>, \<open>Canceled\<close>, \<open>Finished\<close>, never
  \<open>Partial\<close>; a stream that ends with the end-of-stream marker gives \<open>Finished\<close>
  whatever errors and diagnostics its messages carried.
\<close>

theorem status_never_partial:
  "(runProviderFetch co env info dsnURI opts = (Some s, d, u) \<longrightarrow>
      pfs_Status s \<in> {FetchFailed, FetchConfigureFailed, FetchCanceled, FetchFinished}
      \<and> pfs_Status s \<noteq> FetchPartial)
   \<and> pfs_Status (fst (executeFetch co pl info callback))
        \<in> {FetchFailed, FetchConfigureFailed, FetchCanceled, FetchFinished}
   \<and> pfs_Status (fst (executeFetch co pl info callback)) \<noteq> FetchPartial
   \<and> (normalizeResources pl (pi_Config_Resources info) (pi_Config_SkipResources info)
         = (resources, ndiags)
       \<and> \<not> HasErrors ndiags \<and> pl_FetchResources pl resources = Inr (msgs, EOF) \<longrightarrow>
         pfs_Status (fst (executeFetch co pl info callback)) = FetchFinished)"
proof -
  obtain s' d' u' where e: "executeFetch co pl info callback = (s', d', u')"
    by (metis prod_cases3)
  have 1: "pfs_Status s \<in> {FetchFailed, FetchConfigureFailed, FetchCanceled, FetchFinished}
      \<and> pfs_Status s \<noteq> FetchPartial"
    if "runProviderFetch co env info dsnURI opts = (Some s, d, u)"
    using runProviderFetch_status[OF that] by auto
  have 2: "pfs_Status (fst (executeFetch co pl info callback))
        \<in> {FetchFailed, FetchConfigureFailed, FetchCanceled, FetchFinished}
      \<and> pfs_Status (fst (executeFetch co pl info callback)) \<noteq> FetchPartial"
    using executeFetch_status[OF e] e by auto
  have 3: "pfs_Status (fst (executeFetch co pl info callback)) = FetchFinished"
    if "normalizeResources pl (pi_Config_Resources info) (pi_Config_SkipResources info)
         = (resources, ndiags)" "\<not> HasErrors ndiags"
       "pl_FetchResources pl resources = Inr (msgs, EOF)"
  proof -
    obtain s0 d0 u0 where r: "recvLoop co pl info callback msgs EOF
        \<lparr>pfs_Name = pi_Provider_Name info, pfs_Alias = pi_Config_Alias info,
         pfs_Version = pl_Version pl, pfs_TotalResourcesFetched = 0,
         pfs_FetchedResources = [], pfs_Status = FetchFinished\<rparr> ndiags [] = (s0, d0, u0)"
      by (metis prod_cases3)
    from recvLoop_EOF_status[OF r] have "pfs_Status s0 = FetchFinished" by simp
    then show ?thesis using that r by (simp add: executeFetch_def)
  qed
  show ?thesis using 1 2 3 by blast
qed

theorem status_never_partial_witness:
  "normalizeResources (examplePlugin EOF) (pi_Config_Resources exampleInfo)
        (pi_Config_SkipResources exampleInfo) = ([''ec2'', ''s3''], [])
   \<and> \<not> HasErrors []
   \<and> pl_FetchResources (examplePlugin EOF) [''ec2'', ''s3''] = Inr ([exampleMsg], EOF)
   \<and> msg_Error exampleMsg \<noteq> [] \<and> HasErrors (msg_Summary_Diagnostics exampleMsg)
   \<and> pfs_Status (fst (executeFetch exampleCo (examplePlugin EOF) exampleInfo True)) = FetchFinished
   \<and> runProviderFetch exampleCo (exampleEnv (Inr (examplePlugin EOF)) False) exampleInfo ''dsn''
        (exampleOpts [exampleInfo])
      = (Some (fst (executeFetch exampleCo (examplePlugin EOF) exampleInfo True)),
         fst (snd (executeFetch exampleCo (examplePlugin EOF) exampleInfo True)),
         snd (snd (executeFetch exampleCo (examplePlugin EOF) exampleInfo True)))
   \<and> pfs_Status (fst (executeFetch exampleCo (examplePlugin EOF) exampleInfo True)) \<noteq> FetchPartial"
proof -
  have h: "normalizeResources (examplePlugin EOF) (pi_Config_Resources exampleInfo)
        (pi_Config_SkipResources exampleInfo) = ([''ec2'', ''s3''], [])
      \<and> \<not> HasErrors []
      \<and> pl_FetchResources (examplePlugin EOF) [''ec2'', ''s3''] = Inr ([exampleMsg], EOF)"
    by (simp add: example_normalize HasErrors_def) (simp add: examplePlugin_def)
  have m: "msg_Error exampleMsg \<noteq> [] \<and> HasErrors (msg_Summary_Diagnostics exampleMsg)"
    by (simp add: exampleMsg_def HasErrors_def isError_def FromError_def NewBaseError_def
        WithResourceName_def)
  have r: "runProviderFetch exampleCo (exampleEnv (Inr (examplePlugin EOF)) False) exampleInfo ''dsn''
        (exampleOpts [exampleInfo])
      = (Some (fst (executeFetch exampleCo (examplePlugin EOF) exampleInfo True)),
         fst (snd (executeFetch exampleCo (examplePlugin EOF) exampleInfo True)),
         snd (snd (executeFetch exampleCo (examplePlugin EOF) exampleInfo True)))"
  proof -
    have c: "pl_ConfigureProvider (examplePlugin EOF) ''dsn'' = Inr []"
      by (simp add: examplePlugin_def)
    have v: "convertToFetchDiags exampleCo x y z = x" for x y z
      by (simp add: exampleCo_def)
    show ?thesis
      by (simp add: runProviderFetch_def exampleEnv_def exampleOpts_def Add_def HasErrors_def
          c v split: prod.splits)
  qed
  show ?thesis
    using status_never_partial[where co = exampleCo
        and env = "exampleEnv (Inr (examplePlugin EOF)) False"
        and info = exampleInfo and dsnURI = "''dsn''" and opts = "exampleOpts [exampleInfo]"
        and s = "fst (executeFetch exampleCo (examplePlugin EOF) exampleInfo True)"
        and d = "fst (snd (executeFetch exampleCo (examplePlugin EOF) exampleInfo True))"
        and u = "snd (snd (executeFetch exampleCo (examplePlugin EOF) exampleInfo True))"
        and pl = "examplePlugin EOF" and callback = True and resources = "[''ec2'', ''s3'']"
        and ndiags = "[]" and msgs = "[exampleMsg]"]
      h m r
    by simp
qed

subsection \<open>The orchestrator\<close>

lemma update_fresh: "k \<notin> fst ` set al \<Longrightarrow> AList.update k v al = al @ [(k, v)]"
  by (induction al) auto

lemma set_update_subset: "set (AList.update k v al) \<subseteq> insert (k, v) (set al)"
  by (induction al) auto

lemma drain_Inr:
  "drain rs resp d = Inr (resp', d') \<Longrightarrow>
     (\<forall>r\<in>set rs. fst r \<noteq> None)
     \<and> fr_TotalFetched resp' =
         fr_TotalFetched resp + sum_list (map (\<lambda>r. pfs_TotalResourcesFetched (the (fst r))) rs)
     \<and> fr_FetchId resp' = fr_FetchId resp
     \<and> d' = d @ concat (map snd rs)"
proof (induction rs arbitrary: resp d)
  case Nil
  then show ?case by simp
next
  case (Cons r rs)
  obtain s dd where r: "r = (s, dd)" by (cases r)
  from Cons.prems r obtain ps where s: "s = Some ps" by (cases s) auto
  let ?resp = "resp\<lparr>fr_ProviderFetchSummary :=
                         AList.update (pfs_String ps) ps (fr_ProviderFetchSummary resp),
                       fr_TotalFetched := fr_TotalFetched resp + pfs_TotalResourcesFetched ps\<rparr>"
  let ?d = "if HasDiags dd then Add d dd else d"
  have 1: "drain rs ?resp ?d = Inr (resp', d')" using Cons.prems r s by simp
  have dd: "?d = d @ dd" by (simp add: Add_def HasDiags_def)
  from Cons.IH[OF 1] show ?case unfolding dd using r s by (simp add: add.assoc)
qed

lemma drain_map:
  "drain rs resp d = Inr (resp', d') \<Longrightarrow>
   distinct (map (\<lambda>r. pfs_String (the (fst r))) rs) \<Longrightarrow>
   (\<forall>r\<in>set rs. pfs_String (the (fst r)) \<notin> fst ` set (fr_ProviderFetchSummary resp)) \<Longrightarrow>
     fr_ProviderFetchSummary resp' =
       fr_ProviderFetchSummary resp @ map (\<lambda>r. (pfs_String (the (fst r)), the (fst r))) rs"
proof (induction rs arbitrary: resp d)
  case Nil
  then show ?case by simp
next
  case (Cons r rs)
  obtain s dd where r: "r = (s, dd)" by (cases r)
  from Cons.prems(1) r obtain ps where s: "s = Some ps" by (cases s) auto
  let ?resp = "resp\<lparr>fr_ProviderFetchSummary :=
                         AList.update (pfs_String ps) ps (fr_ProviderFetchSummary resp),
                       fr_TotalFetched := fr_TotalFetched resp + pfs_TotalResourcesFetched ps\<rparr>"
  let ?d = "if HasDiags dd then Add d dd else d"
  have fresh: "pfs_String ps \<notin> fst ` set (fr_ProviderFetchSummary resp)"
    using Cons.prems(3) r s by simp
  have m: "fr_ProviderFetchSummary ?resp = fr_ProviderFetchSummary resp @ [(pfs_String ps, ps)]"
    using fresh by (simp add: update_fresh)
  have 1: "drain rs ?resp ?d = Inr (resp', d')" using Cons.prems(1) r s by simp
  have 2: "distinct (map (\<lambda>r. pfs_String (the (fst r))) rs)" using Cons.prems(2) by simp
  have 3: "\<forall>x\<in>set rs. pfs_String (the (fst x)) \<notin> fst ` set (fr_ProviderFetchSummary ?resp)"
  proof
    fix x assume x: "x \<in> set rs"
    have "pfs_String (the (fst x)) \<noteq> pfs_String ps"
    proof
      assume "pfs_String (the (fst x)) = pfs_String ps"
      then have "pfs_String ps \<in> (\<lambda>r. pfs_String (the (fst r))) ` set rs"
        using x by (metis imageI)
      then show False using Cons.prems(2) r s by simp
    qed
    moreover have "pfs_String (the (fst x)) \<notin> fst ` set (fr_ProviderFetchSummary resp)"
      using Cons.prems(3) x by simp
    ultimately show "pfs_String (the (fst x)) \<notin> fst ` set (fr_ProviderFetchSummary ?resp)"
      unfolding m by auto
  qed
  from Cons.IH[OF 1 2 3] show ?case unfolding m using r s by simp
qed

lemma drain_values:
  "drain rs resp d = Inr (resp', d') \<Longrightarrow>
     snd ` set (fr_ProviderFetchSummary resp')
       \<subseteq> snd ` set (fr_ProviderFetchSummary resp) \<union> {p. \<exists>r\<in>set rs. fst r = Some p}"
proof (induction rs arbitrary: resp d)
  case Nil
  then show ?case by simp
next
  case (Cons r rs)
  obtain s dd where r: "r = (s, dd)" by (cases r)
  from Cons.prems(1) r obtain ps where s: "s = Some ps" by (cases s) auto
  let ?resp = "resp\<lparr>fr_ProviderFetchSummary :=
                         AList.update (pfs_String ps) ps (fr_ProviderFetchSummary resp),
                       fr_TotalFetched := fr_TotalFetched resp + pfs_TotalResourcesFetched ps\<rparr>"
  let ?d = "if HasDiags dd then Add d dd else d"
  have 1: "drain rs ?resp ?d = Inr (resp', d')" using Cons.prems(1) r s by simp
  have "snd ` set (fr_ProviderFetchSummary ?resp)
      \<subseteq> insert ps (snd ` set (fr_ProviderFetchSummary resp))"
    using set_update_subset[of "pfs_String ps" ps "fr_ProviderFetchSummary resp"] by auto
  with Cons.IH[OF 1] show ?case using r s by auto
qed

lemma drain_succeeds:
  "\<forall>r\<in>set rs. fst r \<noteq> None \<Longrightarrow> \<exists>resp' d'. drain rs resp d = Inr (resp', d')"
proof (induction rs arbitrary: resp d)
  case Nil
  then show ?case by simp
next
  case (Cons r rs)
  obtain s dd where r: "r = (s, dd)" by (cases r)
  from Cons.prems r obtain ps where s: "s = Some ps" by (cases s) auto
  show ?case using Cons.IH Cons.prems r s by simp
qed

lemma runWorkers_Inr:
  "runWorkers w infos = Inr (rs, saved) \<Longrightarrow>
     list_all2 (\<lambda>info r. \<exists>sv. w info = Inr (r, sv)) infos rs"
proof (induction infos arbitrary: rs saved)
  case Nil
  then show ?case by simp
next
  case (Cons info infos)
  from Cons.prems obtain r sv rs' saved' where
    "w info = Inr (r, sv)" "runWorkers w infos = Inr (rs', saved')" "rs = r # rs'"
    by (auto split: sum.splits prod.splits)
  then show ?case using Cons.IH by auto
qed

lemma runWorkers_all:
  assumes "\<forall>info\<in>set infos. \<exists>s d sv. w info = Inr ((Some s, d), sv) \<and> P info s d
              \<and> list_all Q sv \<and> length sv = n"
  shows "\<exists>rs saved. runWorkers w infos = Inr (rs, saved)
     \<and> list_all2 (\<lambda>info r. \<exists>s. r = (Some s, snd r) \<and> P info s (snd r)) infos rs
     \<and> list_all Q saved \<and> length saved = n * length infos"
  using assms
proof (induction infos)
  case Nil
  then show ?case by simp
next
  case (Cons info infos)
  from Cons.prems obtain s d sv where
    w: "w info = Inr ((Some s, d), sv)" "P info s d" "list_all Q sv" "length sv = n" by auto
  from Cons obtain rs saved where
    r: "runWorkers w infos = Inr (rs, saved)"
      "list_all2 (\<lambda>info r. \<exists>s. r = (Some s, snd r) \<and> P info s (snd r)) infos rs"
      "list_all Q saved" "length saved = n * length infos" by auto
  show ?case using w r by simp
qed

lemma worker_Inr:
  assumes "worker co env fetchId dsnURI opts info = Inr ((s, d), sv)"
  shows "s = fst (runProviderFetch co env info dsnURI opts)"
  using assms
  by (auto simp: worker_def Let_def split: prod.splits if_splits option.splits)

lemma Fetch_unfold:
  assumes "fetchIdOf env opts = Inr fetchId" and "env_parseDSN env = Inr dsnURI"
  shows "Fetch co env opts =
     (case runWorkers (worker co env fetchId dsnURI opts) (attempted opts) of
        Inl p \<Rightarrow> Inl p
      | Inr (results, saved) \<Rightarrow>
          (case drain results (fetchInit fetchId) (skipDiags opts) of
             Inl p \<Rightarrow> Inl p
           | Inr (response, diags') \<Rightarrow>
               Inr \<lparr>out_res = Some (response\<lparr>fr_TelemetryEvents := filter (isTelemetry co) diags'\<rparr>),
                    out_diagnostics = filter (\<lambda>d. \<not> isTelemetry co d) diags',
                    out_saved = saved\<rparr>))"
proof -
  have i: "(if opt_FetchId opts = 0 then env_NewUUID env else Inr (opt_FetchId opts)) = Inr fetchId"
    using assms(1) by (simp add: fetchIdOf_def)
  show ?thesis
    unfolding Fetch_def i
    by (simp add: assms(2) Let_def attempted_def FilterTelemetryEvents_def fetchInit_def
        skipDiags_def split: sum.splits prod.splits)
qed

lemma Fetch_Inr_Some:
  assumes "Fetch co env opts = Inr out" and "out_res out = Some r"
  shows "\<exists>fetchId dsnURI results saved response diags'.
    fetchIdOf env opts = Inr fetchId \<and> env_parseDSN env = Inr dsnURI
    \<and> runWorkers (worker co env fetchId dsnURI opts) (attempted opts) = Inr (results, saved)
    \<and> drain results (fetchInit fetchId) (skipDiags opts) = Inr (response, diags')
    \<and> r = response\<lparr>fr_TelemetryEvents := filter (isTelemetry co) diags'\<rparr>
    \<and> out_diagnostics out = filter (\<lambda>d. \<not> isTelemetry co d) diags'
    \<and> out_saved out = saved"
proof (cases "fetchIdOf env opts")
  case (Inl e)
  then have "Fetch co env opts =
      Inr \<lparr>out_res = None, out_diagnostics = FromError e INTERNAL [], out_saved = []\<rparr>"
    by (simp add: Fetch_def fetchIdOf_def)
  with assms show ?thesis by auto
next
  case (Inr fetchId)
  note fid = this
  show ?thesis
  proof (cases "env_parseDSN env")
    case (Inl e)
    have i: "(if opt_FetchId opts = 0 then env_NewUUID env else Inr (opt_FetchId opts)) = Inr fetchId"
      using fid by (simp add: fetchIdOf_def)
    have "Fetch co env opts =
      Inr \<lparr>out_res = None, out_diagnostics = FromError e INTERNAL [], out_saved = []\<rparr>"
      unfolding Fetch_def i by (simp add: Inl)
    with assms show ?thesis by auto
  next
    case (Inr dsnURI)
    note u = Fetch_unfold[OF fid Inr, of co]
    show ?thesis
    proof (cases "runWorkers (worker co env fetchId dsnURI opts) (attempted opts)")
      case (Inl p)
      with u assms show ?thesis by simp
    next
      case (Inr rs)
      obtain results saved where rs: "rs = (results, saved)" by (cases rs)
      show ?thesis
      proof (cases "drain results (fetchInit fetchId) (skipDiags opts)")
        case (Inl p)
        with u Inr rs assms show ?thesis by simp
      next
        case (Inr rd)
        obtain response diags' where rd: "rd = (response, diags')" by (cases rd)
        have "out = \<lparr>out_res = Some (response\<lparr>fr_TelemetryEvents := filter (isTelemetry co) diags'\<rparr>),
                    out_diagnostics = filter (\<lambda>d. \<not> isTelemetry co d) diags',
                    out_saved = saved\<rparr>"
          using u \<open>runWorkers (worker co env fetchId dsnURI opts) (attempted opts) = Inr rs\<close>
            rs Inr rd assms(1) by simp
        then show ?thesis
          using fid \<open>env_parseDSN env = Inr dsnURI\<close>
            \<open>runWorkers (worker co env fetchId dsnURI opts) (attempted opts) = Inr rs\<close>
            rs Inr rd assms(2) by auto
      qed
    qed
  qed
qed

lemma example_create_fails:
  "runProviderFetch exampleCo (exampleEnv (Inl ''plugin not found'') dl) exampleInfo dsnURI opts
     = (None, FromError ''plugin not found'' INTERNAL [], [])"
  by (simp add: runProviderFetch_def exampleEnv_def)

text \<open>
  Claim C1. The claim asks for an entry with a terminal status for every attempted
  provider, also when the plugin cannot be created. At that input the runner returns a
  nil summary, and \<open>Fetch\<close> dereferences it: with or without a deadline the call
  panics and no response is returned.
\<close>

theorem create_failure_panics:
  "pi_Config_Resources exampleInfo \<noteq> []
   \<and> runProviderFetch exampleCo (exampleEnv (Inl ''plugin not found'') False) exampleInfo
        ''postgres://localhost/cq'' (exampleOpts [exampleInfo])
      = (None, FromError ''plugin not found'' INTERNAL [], [])
   \<and> Fetch exampleCo (exampleEnv (Inl ''plugin not found'') False) (exampleOpts [exampleInfo])
      = Inl NilPointerDereference
   \<and> Fetch exampleCo (exampleEnv (Inl ''plugin not found'') True) (exampleOpts [exampleInfo])
      = Inl NilPointerDereference"
proof -
  have i: "fetchIdOf (exampleEnv c dl) (exampleOpts [exampleInfo]) = Inr 7" for c dl
    by (simp add: fetchIdOf_def exampleEnv_def exampleOpts_def)
  have d: "env_parseDSN (exampleEnv c dl) = Inr ''postgres://localhost/cq''" for c dl
    by (simp add: exampleEnv_def)
  have a: "attempted (exampleOpts [exampleInfo]) = [exampleInfo]"
    by (simp add: attempted_def exampleOpts_def exampleInfo_def)
  have w1: "worker exampleCo (exampleEnv (Inl ''plugin not found'') False) 7
      ''postgres://localhost/cq'' (exampleOpts [exampleInfo]) exampleInfo = Inl NilPointerDereference"
    by (simp add: worker_def example_create_fails) (simp add: exampleEnv_def)
  have w2: "worker exampleCo (exampleEnv (Inl ''plugin not found'') True) 7
      ''postgres://localhost/cq'' (exampleOpts [exampleInfo]) exampleInfo
      = Inr ((None, FromError ''plugin not found'' INTERNAL []), [])"
    by (simp add: worker_def example_create_fails) (simp add: exampleEnv_def)
  have 1: "Fetch exampleCo (exampleEnv (Inl ''plugin not found'') False) (exampleOpts [exampleInfo])
      = Inl NilPointerDereference"
    by (simp add: Fetch_unfold[OF i d] a w1)
  have 2: "Fetch exampleCo (exampleEnv (Inl ''plugin not found'') True) (exampleOpts [exampleInfo])
      = Inl NilPointerDereference"
    by (simp add: Fetch_unfold[OF i d] a w2)
  show ?thesis using 1 2 by (simp add: example_create_fails) (simp add: exampleInfo_def)
qed

lemma example_executeFetch:
  "executeFetch exampleCo (examplePlugin EOF) exampleInfo True =
     (\<lparr>pfs_Name = ''aws'', pfs_Alias = [], pfs_Version = ''v0.1.0'',
       pfs_TotalResourcesFetched = 1,
       pfs_FetchedResources =
         [(''ec2'', \<lparr>rfs_Status = ''PARTIAL'', rfs_ResourceCount = 1,
                     rfs_Diagnostics = FromError ''access denied'' RESOLVING [WithResourceName ''ec2''],
                     rfs_TelemetryEvents = []\<rparr>)],
       pfs_Status = FetchFinished\<rparr>,
      FromError ''access denied'' RESOLVING [WithResourceName ''ec2'']
        @ FromError ''access denied'' RESOLVING [WithResourceName ''ec2''],
      [\<lparr>fu_Name = ''aws'', fu_Alias = [], fu_Version = ''v0.1.0'',
        fu_FinishedResources = [(''ec2'', True)], fu_ResourceCount = 1, fu_Error = [],
        fu_DiagnosticCount = 0\<rparr>])"
proof -
  have f: "pl_FetchResources (examplePlugin EOF) [''ec2'', ''s3''] = Inr ([exampleMsg], EOF)"
    by (simp add: examplePlugin_def)
  have t: "isTelemetry exampleCo = (\<lambda>d. False)" by (simp add: exampleCo_def)
  have v: "pl_Version (examplePlugin EOF) = ''v0.1.0''" by (simp add: examplePlugin_def)
  show ?thesis
    unfolding executeFetch_def example_normalize
    by (simp add: f HasErrors_def Let_def FilterTelemetryEvents_def t v HasDiags_def Add_def
        BySeverity_def)
       (simp add: exampleMsg_def exampleInfo_def FromError_def)
qed

lemma example_run_ok:
  "runProviderFetch exampleCo (exampleEnv (Inr (examplePlugin EOF)) dl) exampleInfo dsnURI
       (exampleOpts infos)
     = (Some (fst (executeFetch exampleCo (examplePlugin EOF) exampleInfo True)),
        fst (snd (executeFetch exampleCo (examplePlugin EOF) exampleInfo True)),
        snd (snd (executeFetch exampleCo (examplePlugin EOF) exampleInfo True)))"
proof -
  have c: "pl_ConfigureProvider (examplePlugin EOF) dsnURI = Inr []"
    by (simp add: examplePlugin_def)
  have v: "convertToFetchDiags exampleCo x y z = x" for x y z
    by (simp add: exampleCo_def)
  show ?thesis
    by (simp add: runProviderFetch_def exampleEnv_def exampleOpts_def Add_def HasErrors_def
        c v split: prod.splits)
qed

lemma example_worker_ok:
  "worker exampleCo (exampleEnv (Inr (examplePlugin EOF)) False) 7 dsnURI (exampleOpts infos)
       exampleInfo
     = Inr ((Some (fst (executeFetch exampleCo (examplePlugin EOF) exampleInfo True)),
             fst (snd (executeFetch exampleCo (examplePlugin EOF) exampleInfo True))),
            [createFetchSummary 7 (fst (executeFetch exampleCo (examplePlugin EOF) exampleInfo True))])"
  by (simp add: worker_def example_run_ok) (simp add: exampleEnv_def split: prod.splits)

text \<open>
  The response map is keyed by the display string. Two attempted providers with the
  same name and alias share one entry, while \<open>TotalFetched\<close> counts both.
\<close>

theorem duplicate_display_key_counterexample:
  "Fetch exampleCo (exampleEnv (Inr (examplePlugin EOF)) False)
       (exampleOpts [exampleInfo, exampleInfo]) \<noteq> Inl NilPointerDereference
   \<and> out_res (projr (Fetch exampleCo (exampleEnv (Inr (examplePlugin EOF)) False)
       (exampleOpts [exampleInfo, exampleInfo]))) \<noteq> None
   \<and> fr_TotalFetched (the (out_res (projr (Fetch exampleCo
       (exampleEnv (Inr (examplePlugin EOF)) False) (exampleOpts [exampleInfo, exampleInfo]))))) = 2
   \<and> summaryTotals (the (out_res (projr (Fetch exampleCo
       (exampleEnv (Inr (examplePlugin EOF)) False) (exampleOpts [exampleInfo, exampleInfo]))))) = 1
   \<and> (2 :: 64 word) \<noteq> 1"
proof -
  let ?env = "exampleEnv (Inr (examplePlugin EOF)) False"
  let ?opts = "exampleOpts [exampleInfo, exampleInfo]"
  have i: "fetchIdOf ?env ?opts = Inr 7"
    by (simp add: fetchIdOf_def exampleEnv_def exampleOpts_def)
  have d: "env_parseDSN ?env = Inr ''postgres://localhost/cq''"
    by (simp add: exampleEnv_def)
  have a: "attempted ?opts = [exampleInfo, exampleInfo]"
    by (simp add: attempted_def exampleOpts_def exampleInfo_def)
  have f: "Fetch exampleCo ?env ?opts =
     Inr \<lparr>out_res = Some
            \<lparr>fr_FetchId = 7,
             fr_ProviderFetchSummary =
               [(''aws'', fst (executeFetch exampleCo (examplePlugin EOF) exampleInfo True))],
             fr_TotalFetched = 2,
             fr_TelemetryEvents = filter (isTelemetry exampleCo)
               (skipDiags ?opts
                @ fst (snd (executeFetch exampleCo (examplePlugin EOF) exampleInfo True))
                @ fst (snd (executeFetch exampleCo (examplePlugin EOF) exampleInfo True)))\<rparr>,
          out_diagnostics = filter (\<lambda>d. \<not> isTelemetry exampleCo d)
               (skipDiags ?opts
                @ fst (snd (executeFetch exampleCo (examplePlugin EOF) exampleInfo True))
                @ fst (snd (executeFetch exampleCo (examplePlugin EOF) exampleInfo True))),
          out_saved =
            [createFetchSummary 7 (fst (executeFetch exampleCo (examplePlugin EOF) exampleInfo True)),
             createFetchSummary 7 (fst (executeFetch exampleCo (examplePlugin EOF) exampleInfo True))]\<rparr>"
    unfolding Fetch_unfold[OF i d] a
    by (simp add: example_worker_ok fetchInit_def)
       (simp add: example_executeFetch pfs_String_def HasDiags_def Add_def FromError_def)
  show ?thesis unfolding f by (simp add: summaryTotals_def example_executeFetch)
qed

lemma list_all2_map_eq:
  "list_all2 (\<lambda>x y. f x = g y) xs ys \<Longrightarrow> map f xs = map g ys"
  by (induction rule: list_all2_induct) auto

text \<open>
  Claim C2, amended. For every response returned by \<open>Fetch\<close> for which the display
  strings of the attempted providers are pairwise distinct, the map holds one entry per
  attempted provider, keyed by its display string, and \<open>TotalFetched\<close> equals the sum
  (in \<open>uint64\<close>) of \<open>TotalResourcesFetched\<close> over the entries of the map.
\<close>

theorem total_fetched_is_sum:
  assumes "Fetch co env opts = Inr out" and "out_res out = Some r"
    and "distinct (map displayKey (attempted opts))"
  shows "map fst (fr_ProviderFetchSummary r) = map displayKey (attempted opts)
     \<and> fr_TotalFetched r = summaryTotals r"
proof -
  from Fetch_Inr_Some[OF assms(1,2)] obtain fetchId dsnURI results saved response diags' where
    w: "runWorkers (worker co env fetchId dsnURI opts) (attempted opts) = Inr (results, saved)"
    and dr: "drain results (fetchInit fetchId) (skipDiags opts) = Inr (response, diags')"
    and r: "r = response\<lparr>fr_TelemetryEvents := filter (isTelemetry co) diags'\<rparr>"
    by blast
  from drain_Inr[OF dr] have some: "\<forall>x\<in>set results. fst x \<noteq> None"
    and tot: "fr_TotalFetched response =
       sum_list (map (\<lambda>x. pfs_TotalResourcesFetched (the (fst x))) results)"
    by (simp_all add: fetchInit_def)
  have rel: "list_all2 (\<lambda>info x. displayKey info = pfs_String (the (fst x))) (attempted opts) results"
  proof (rule list.rel_mono_strong[OF runWorkers_Inr[OF w]])
    fix info x
    assume i: "info \<in> set (attempted opts)" and x: "x \<in> set results"
      and e: "\<exists>sv. worker co env fetchId dsnURI opts info = Inr (x, sv)"
    obtain s d where xd: "x = (s, d)" by (cases x)
    from e xd obtain sv where "worker co env fetchId dsnURI opts info = Inr ((s, d), sv)" by auto
    from worker_Inr[OF this] have s: "s = fst (runProviderFetch co env info dsnURI opts)" .
    from some x xd obtain ps where ps: "s = Some ps" by (cases s) auto
    obtain d' u' where "runProviderFetch co env info dsnURI opts = (Some ps, d', u')"
      using s ps by (metis fst_conv prod_cases3)
    from runProviderFetch_displayKey[OF this] show "displayKey info = pfs_String (the (fst x))"
      using xd ps by simp
  qed
  have keys: "map (\<lambda>x. pfs_String (the (fst x))) results = map displayKey (attempted opts)"
    using list_all2_map_eq[OF rel] by simp
  have dist: "distinct (map (\<lambda>x. pfs_String (the (fst x))) results)"
    using assms(3) keys by simp
  have m: "fr_ProviderFetchSummary response =
      map (\<lambda>x. (pfs_String (the (fst x)), the (fst x))) results"
    using drain_map[OF dr dist] by (simp add: fetchInit_def)
  have 1: "map fst (fr_ProviderFetchSummary r) = map displayKey (attempted opts)"
    using m keys r by (simp add: comp_def)
  have 2: "fr_TotalFetched r = summaryTotals r"
    using m tot r by (simp add: summaryTotals_def comp_def)
  show ?thesis using 1 2 by simp
qed

theorem total_fetched_is_sum_witness:
  "Fetch exampleCo (exampleEnv (Inr (examplePlugin EOF)) False) (exampleOpts [exampleInfo])
     \<noteq> Inl NilPointerDereference
   \<and> out_res (projr (Fetch exampleCo (exampleEnv (Inr (examplePlugin EOF)) False)
        (exampleOpts [exampleInfo]))) \<noteq> None
   \<and> distinct (map displayKey (attempted (exampleOpts [exampleInfo])))
   \<and> map fst (fr_ProviderFetchSummary (the (out_res (projr (Fetch exampleCo
        (exampleEnv (Inr (examplePlugin EOF)) False) (exampleOpts [exampleInfo]))))))
      = [''aws'']
   \<and> fr_TotalFetched (the (out_res (projr (Fetch exampleCo
        (exampleEnv (Inr (examplePlugin EOF)) False) (exampleOpts [exampleInfo])))))
      = summaryTotals (the (out_res (projr (Fetch exampleCo
        (exampleEnv (Inr (examplePlugin EOF)) False) (exampleOpts [exampleInfo])))))"
proof -
  let ?env = "exampleEnv (Inr (examplePlugin EOF)) False"
  let ?opts = "exampleOpts [exampleInfo]"
  have i: "fetchIdOf ?env ?opts = Inr 7"
    by (simp add: fetchIdOf_def exampleEnv_def exampleOpts_def)
  have d: "env_parseDSN ?env = Inr ''postgres://localhost/cq''"
    by (simp add: exampleEnv_def)
  have a: "attempted ?opts = [exampleInfo]"
    by (simp add: attempted_def exampleOpts_def exampleInfo_def)
  have k: "displayKey exampleInfo = ''aws''" by (simp add: displayKey_def exampleInfo_def)
  obtain out where o: "Fetch exampleCo ?env ?opts = Inr out" and s: "out_res out \<noteq> None"
    unfolding Fetch_unfold[OF i d] a
    by (simp add: example_worker_ok fetchInit_def)
  from s obtain r where r: "out_res out = Some r" by auto
  have dk: "distinct (map displayKey (attempted ?opts))" by (simp add: a)
  from total_fetched_is_sum[OF o r dk] show ?thesis using o r a k by simp
qed

lemma pfs_Diagnostics_empty: "pfs_FetchedResources p = [] \<Longrightarrow> pfs_Diagnostics p = []"
  by (simp add: pfs_Diagnostics_def)

lemma createFetchSummary_success:
  "pfs_FetchedResources p = [] \<Longrightarrow> fs_IsSuccess (createFetchSummary fetchId p)"
  by (simp add: createFetchSummary_def pfs_Diagnostics_empty HasErrors_def)

lemma executeFetch_normalize_fails:
  assumes "HasErrors (snd (normalizeResources pl (pi_Config_Resources info)
                             (pi_Config_SkipResources info)))"
  shows "executeFetch co pl info cb =
     ((summary0 pl info)\<lparr>pfs_Status := FetchFailed\<rparr>,
      snd (normalizeResources pl (pi_Config_Resources info) (pi_Config_SkipResources info)), [])"
proof -
  obtain res nd where n: "normalizeResources pl (pi_Config_Resources info)
      (pi_Config_SkipResources info) = (res, nd)" by (cases "normalizeResources pl
      (pi_Config_Resources info) (pi_Config_SkipResources info)")
  with assms have "HasErrors nd" by simp
  then show ?thesis by (simp add: executeFetch_def n summary0_def)
qed

lemma failsBeforeFetch_run:
  assumes "failsBeforeFetch env dsnURI info"
  shows "\<exists>s d u. runProviderFetch co env info dsnURI opts = (Some s, d, u)
           \<and> pfs_FetchedResources s = []"
proof -
  from assms obtain pl where pl: "env_CreatePlugin env info = Inr pl"
    by (auto simp: failsBeforeFetch_def split: sum.splits)
  show ?thesis
  proof (cases "pl_ConfigureProvider pl dsnURI")
    case (Inl err)
    then show ?thesis using pl by (simp add: runProviderFetch_def)
  next
    case (Inr ds)
    show ?thesis
    proof (cases "HasErrors ds")
      case True
      then show ?thesis using pl Inr by (simp add: runProviderFetch_def Add_def)
    next
      case False
      with assms pl Inr have n: "HasErrors (snd (normalizeResources pl (pi_Config_Resources info)
          (pi_Config_SkipResources info)))"
        by (simp add: failsBeforeFetch_def)
      have e: "pfs_FetchedResources (fst (executeFetch co pl info (opt_UpdateCallback opts))) = []"
        by (simp add: executeFetch_normalize_fails[OF n] summary0_def)
      show ?thesis using pl Inr False
        by (simp add: runProviderFetch_def Add_def executeFetch_normalize_fails[OF n] summary0_def)
    qed
  qed
qed

lemma worker_early:
  assumes "failsBeforeFetch env dsnURI info"
  shows "\<exists>s d sv. worker co env fetchId dsnURI opts info = Inr ((Some s, d), sv)
       \<and> (pfs_FetchedResources s = [] \<and> set (runnerDiags co env info dsnURI opts) \<subseteq> set d)
       \<and> list_all fs_IsSuccess sv \<and> length sv = (if env_hasDeadline env then 0 else 1)"
proof -
  from failsBeforeFetch_run[OF assms, of co opts] obtain s d u where
    r: "runProviderFetch co env info dsnURI opts = (Some s, d, u)" and e: "pfs_FetchedResources s = []"
    by blast
  have rd: "runnerDiags co env info dsnURI opts = d" using r by (simp add: runnerDiags_def)
  show ?thesis
  proof (cases "env_hasDeadline env")
    case True
    then show ?thesis using r e rd by (simp add: worker_def)
  next
    case False
    then show ?thesis using r e rd createFetchSummary_success[OF e, of fetchId]
      by (cases "env_SaveFetchSummary env (createFetchSummary fetchId s)")
         (auto simp: worker_def Let_def Add_def)
  qed
qed

lemma list_all2_left: "list_all2 R xs ys \<Longrightarrow> x \<in> set xs \<Longrightarrow> \<exists>y\<in>set ys. R x y"
  by (induction rule: list_all2_induct) auto

lemma list_all2_right: "list_all2 R xs ys \<Longrightarrow> y \<in> set ys \<Longrightarrow> \<exists>x\<in>set xs. R x y"
  by (induction rule: list_all2_induct) auto

lemma runner_error_diags:
  assumes "env_CreatePlugin env info = Inr pl"
  shows "(pl_ConfigureProvider pl dsnURI = Inl err \<and> \<not> IsCancelation co err \<longrightarrow>
            runnerDiags co env info dsnURI opts = FromError err INTERNAL []
            \<and> HasErrors (runnerDiags co env info dsnURI opts))
     \<and> (pl_ConfigureProvider pl dsnURI = Inr ds \<and> HasErrors ds \<longrightarrow>
            runnerDiags co env info dsnURI opts = ds)
     \<and> (pl_ConfigureProvider pl dsnURI = Inr ds \<and> \<not> HasErrors ds
          \<and> HasErrors (snd (normalizeResources pl (pi_Config_Resources info)
                             (pi_Config_SkipResources info))) \<longrightarrow>
            fst (snd (executeFetch co pl info (opt_UpdateCallback opts)))
              = snd (normalizeResources pl (pi_Config_Resources info) (pi_Config_SkipResources info))
            \<and> runnerDiags co env info dsnURI opts
              = ds @ convertToFetchDiags co
                       (snd (normalizeResources pl (pi_Config_Resources info)
                               (pi_Config_SkipResources info)))
                       (pi_Provider_Name info) (pl_Version pl))"
proof (intro conjI impI)
  assume a: "pl_ConfigureProvider pl dsnURI = Inl err \<and> \<not> IsCancelation co err"
  then show "runnerDiags co env info dsnURI opts = FromError err INTERNAL []"
    using assms by (simp add: runnerDiags_def runProviderFetch_def)
  then show "HasErrors (runnerDiags co env info dsnURI opts)"
    by (simp add: HasErrors_def isError_def FromError_def NewBaseError_def)
next
  assume "pl_ConfigureProvider pl dsnURI = Inr ds \<and> HasErrors ds"
  then show "runnerDiags co env info dsnURI opts = ds"
    using assms by (simp add: runnerDiags_def runProviderFetch_def Add_def)
next
  assume a: "pl_ConfigureProvider pl dsnURI = Inr ds \<and> \<not> HasErrors ds
          \<and> HasErrors (snd (normalizeResources pl (pi_Config_Resources info)
                             (pi_Config_SkipResources info)))"
  show e: "fst (snd (executeFetch co pl info (opt_UpdateCallback opts)))
      = snd (normalizeResources pl (pi_Config_Resources info) (pi_Config_SkipResources info))"
    using a by (simp add: executeFetch_normalize_fails)
  show "runnerDiags co env info dsnURI opts
              = ds @ convertToFetchDiags co
                       (snd (normalizeResources pl (pi_Config_Resources info)
                               (pi_Config_SkipResources info)))
                       (pi_Provider_Name info) (pl_Version pl)"
    using a assms
    by (simp add: runnerDiags_def runProviderFetch_def Add_def executeFetch_normalize_fails)
qed

text \<open>
  Claim C10. \<open>Diagnostics()\<close> of a summary collects only the diagnostics stored in
  its \<open>FetchedResources\<close>. Hence, when every attempted provider fails during
  configuration or normalization, \<open>Fetch\<close> returns a response whose \<open>HasErrors()\<close>
  is false and every record handed to the state client has \<open>IsSuccess\<close> true, although
  the diagnostics of the runners hold errors, and every such entry that is not a
  telemetry entry is among the diagnostics \<open>Fetch\<close> returns.
\<close>

theorem early_failures_hidden:
  assumes "fetchIdOf env opts = Inr fetchId" and "env_parseDSN env = Inr dsnURI"
    and "\<forall>info\<in>set (attempted opts). failsBeforeFetch env dsnURI info"
  shows "\<exists>out r. Fetch co env opts = Inr out \<and> out_res out = Some r
     \<and> \<not> fr_HasErrors r
     \<and> list_all fs_IsSuccess (out_saved out)
     \<and> (\<not> env_hasDeadline env \<longrightarrow> length (out_saved out) = length (attempted opts))
     \<and> (\<forall>info\<in>set (attempted opts). \<forall>x\<in>set (runnerDiags co env info dsnURI opts).
            \<not> isTelemetry co x \<longrightarrow> x \<in> set (out_diagnostics out))
     \<and> (\<forall>info\<in>set (attempted opts). \<forall>pl err.
            env_CreatePlugin env info = Inr pl \<and> pl_ConfigureProvider pl dsnURI = Inl err
            \<and> \<not> IsCancelation co err \<longrightarrow> HasErrors (runnerDiags co env info dsnURI opts))
     \<and> (\<forall>info\<in>set (attempted opts). \<forall>pl ds.
            env_CreatePlugin env info = Inr pl \<and> pl_ConfigureProvider pl dsnURI = Inr ds
            \<and> HasErrors ds \<longrightarrow> HasErrors (runnerDiags co env info dsnURI opts))
     \<and> (\<forall>info\<in>set (attempted opts). \<forall>pl ds.
            env_CreatePlugin env info = Inr pl \<and> pl_ConfigureProvider pl dsnURI = Inr ds
            \<and> \<not> HasErrors ds \<longrightarrow>
              HasErrors (fst (snd (executeFetch co pl info (opt_UpdateCallback opts)))))
     \<and> (\<forall>p. set (pfs_Diagnostics p)
              = (\<Union>e\<in>set (pfs_FetchedResources p). set (rfs_Diagnostics (snd e))))"
proof -
  let ?n = "if env_hasDeadline env then 0 else (1::nat)"
  let ?P = "\<lambda>info s d. pfs_FetchedResources s = []
              \<and> set (runnerDiags co env info dsnURI opts) \<subseteq> set d"
  have "\<forall>info\<in>set (attempted opts). \<exists>s d sv.
      worker co env fetchId dsnURI opts info = Inr ((Some s, d), sv) \<and> ?P info s d
      \<and> list_all fs_IsSuccess sv \<and> length sv = ?n"
    using assms(3) worker_early[of env dsnURI _ co fetchId opts] by blast
  from runWorkers_all[where P = ?P and Q = fs_IsSuccess and n = ?n, OF this]
  obtain results saved where
    w: "runWorkers (worker co env fetchId dsnURI opts) (attempted opts) = Inr (results, saved)"
    and rel: "list_all2 (\<lambda>info r. \<exists>s. r = (Some s, snd r) \<and> ?P info s (snd r))
                (attempted opts) results"
    and sv: "list_all fs_IsSuccess saved" and ln: "length saved = ?n * length (attempted opts)"
    by blast
  have some: "\<forall>r\<in>set results. fst r \<noteq> None"
  proof
    fix r assume "r \<in> set results"
    from list_all2_right[OF rel this] obtain s where "r = (Some s, snd r)" by blast
    then show "fst r \<noteq> None" by (metis fst_conv option.distinct(1))
  qed
  from drain_succeeds[OF some, of "fetchInit fetchId" "skipDiags opts"] obtain response diags'
    where dr: "drain results (fetchInit fetchId) (skipDiags opts) = Inr (response, diags')" by blast
  define out where "out = \<lparr>out_res = Some (response\<lparr>fr_TelemetryEvents := filter (isTelemetry co) diags'\<rparr>),
                    out_diagnostics = filter (\<lambda>d. \<not> isTelemetry co d) diags',
                    out_saved = saved\<rparr>"
  have f: "Fetch co env opts = Inr out"
    using Fetch_unfold[OF assms(1,2), of co] w dr by (simp add: out_def)
  have vals: "\<forall>e\<in>set (fr_ProviderFetchSummary response). pfs_FetchedResources (snd e) = []"
  proof
    fix e assume e: "e \<in> set (fr_ProviderFetchSummary response)"
    from drain_values[OF dr] e obtain r where r: "r \<in> set results" "fst r = Some (snd e)"
      by (auto simp: fetchInit_def)
    from list_all2_right[OF rel r(1)] obtain s where "r = (Some s, snd r)"
      "pfs_FetchedResources s = []" by blast
    with r(2) show "pfs_FetchedResources (snd e) = []" by (metis fst_conv option.inject)
  qed
  have ne: "\<not> fr_HasErrors (response\<lparr>fr_TelemetryEvents := filter (isTelemetry co) diags'\<rparr>)"
    using vals
    by (auto simp: fr_HasErrors_def list_ex_iff pfs_Diagnostics_empty HasErrors_def)
  have dg: "diags' = skipDiags opts @ concat (map snd results)"
    using drain_Inr[OF dr] by simp
  have incl: "\<forall>info\<in>set (attempted opts). \<forall>x\<in>set (runnerDiags co env info dsnURI opts).
            \<not> isTelemetry co x \<longrightarrow> x \<in> set (out_diagnostics out)"
  proof (intro ballI impI)
    fix info x
    assume i: "info \<in> set (attempted opts)"
      and x: "x \<in> set (runnerDiags co env info dsnURI opts)" and t: "\<not> isTelemetry co x"
    from list_all2_left[OF rel i] obtain r where r: "r \<in> set results"
      "set (runnerDiags co env info dsnURI opts) \<subseteq> set (snd r)" by blast
    then have "x \<in> set diags'" using x unfolding dg by auto
    then show "x \<in> set (out_diagnostics out)" using t by (simp add: out_def)
  qed
  have c1: "\<forall>info\<in>set (attempted opts). \<forall>pl err.
            env_CreatePlugin env info = Inr pl \<and> pl_ConfigureProvider pl dsnURI = Inl err
            \<and> \<not> IsCancelation co err \<longrightarrow> HasErrors (runnerDiags co env info dsnURI opts)"
    using runner_error_diags by blast
  have c2: "\<forall>info\<in>set (attempted opts). \<forall>pl ds.
            env_CreatePlugin env info = Inr pl \<and> pl_ConfigureProvider pl dsnURI = Inr ds
            \<and> HasErrors ds \<longrightarrow> HasErrors (runnerDiags co env info dsnURI opts)"
    using runner_error_diags by metis
  have c3: "\<forall>info\<in>set (attempted opts). \<forall>pl ds.
            env_CreatePlugin env info = Inr pl \<and> pl_ConfigureProvider pl dsnURI = Inr ds
            \<and> \<not> HasErrors ds \<longrightarrow>
              HasErrors (fst (snd (executeFetch co pl info (opt_UpdateCallback opts))))"
  proof (intro ballI allI impI)
    fix info pl ds
    assume i: "info \<in> set (attempted opts)"
      and a: "env_CreatePlugin env info = Inr pl \<and> pl_ConfigureProvider pl dsnURI = Inr ds
            \<and> \<not> HasErrors ds"
    from assms(3) i a have n: "HasErrors (snd (normalizeResources pl (pi_Config_Resources info)
          (pi_Config_SkipResources info)))"
      by (auto simp: failsBeforeFetch_def)
    from runner_error_diags[of env info pl dsnURI _ co opts ds] a n
    show "HasErrors (fst (snd (executeFetch co pl info (opt_UpdateCallback opts))))" by simp
  qed
  have c4: "\<forall>p. set (pfs_Diagnostics p)
              = (\<Union>e\<in>set (pfs_FetchedResources p). set (rfs_Diagnostics (snd e)))"
    by (auto simp: pfs_Diagnostics_def)
  have l: "\<not> env_hasDeadline env \<longrightarrow> length (out_saved out) = length (attempted opts)"
    using ln by (simp add: out_def)
  have s: "list_all fs_IsSuccess (out_saved out)" using sv by (simp add: out_def)
  have r: "out_res out = Some (response\<lparr>fr_TelemetryEvents := filter (isTelemetry co) diags'\<rparr>)"
    by (simp add: out_def)
  show ?thesis
    apply (rule exI[of _ out])
    apply (rule exI[of _ "response\<lparr>fr_TelemetryEvents := filter (isTelemetry co) diags'\<rparr>"])
    using f r ne s l incl c1 c2 c3 c4 by blast
qed

theorem early_failures_hidden_witness:
  "fetchIdOf (exampleEnv (Inr ((examplePlugin EOF)\<lparr>pl_ConfigureProvider := (\<lambda>dsnURI. Inl ''bad credentials'')\<rparr>)) False)
      (exampleOpts [exampleInfo]) = Inr 7
   \<and> env_parseDSN (exampleEnv (Inr ((examplePlugin EOF)\<lparr>pl_ConfigureProvider := (\<lambda>dsnURI. Inl ''bad credentials'')\<rparr>)) False)
      = Inr ''postgres://localhost/cq''
   \<and> attempted (exampleOpts [exampleInfo]) = [exampleInfo]
   \<and> failsBeforeFetch (exampleEnv (Inr ((examplePlugin EOF)\<lparr>pl_ConfigureProvider := (\<lambda>dsnURI. Inl ''bad credentials'')\<rparr>)) False)
          ''postgres://localhost/cq'' exampleInfo
   \<and> \<not> fr_HasErrors (the (out_res (projr (Fetch exampleCo
        (exampleEnv (Inr ((examplePlugin EOF)\<lparr>pl_ConfigureProvider := (\<lambda>dsnURI. Inl ''bad credentials'')\<rparr>)) False)
        (exampleOpts [exampleInfo])))))
   \<and> list_all fs_IsSuccess (out_saved (projr (Fetch exampleCo
        (exampleEnv (Inr ((examplePlugin EOF)\<lparr>pl_ConfigureProvider := (\<lambda>dsnURI. Inl ''bad credentials'')\<rparr>)) False)
        (exampleOpts [exampleInfo]))))
   \<and> length (out_saved (projr (Fetch exampleCo
        (exampleEnv (Inr ((examplePlugin EOF)\<lparr>pl_ConfigureProvider := (\<lambda>dsnURI. Inl ''bad credentials'')\<rparr>)) False)
        (exampleOpts [exampleInfo])))) = 1
   \<and> HasErrors (out_diagnostics (projr (Fetch exampleCo
        (exampleEnv (Inr ((examplePlugin EOF)\<lparr>pl_ConfigureProvider := (\<lambda>dsnURI. Inl ''bad credentials'')\<rparr>)) False)
        (exampleOpts [exampleInfo]))))"
proof -
  let ?pl = "(examplePlugin EOF)\<lparr>pl_ConfigureProvider := (\<lambda>dsnURI. Inl ''bad credentials'')\<rparr>"
  let ?env = "exampleEnv (Inr ?pl) False"
  let ?opts = "exampleOpts [exampleInfo]"
  let ?dsn = "''postgres://localhost/cq''"
  have i: "fetchIdOf ?env ?opts = Inr 7"
    by (simp add: fetchIdOf_def exampleEnv_def exampleOpts_def)
  have d: "env_parseDSN ?env = Inr ?dsn"
    by (simp add: exampleEnv_def)
  have a: "attempted ?opts = [exampleInfo]"
    by (simp add: attempted_def exampleOpts_def exampleInfo_def)
  have c: "env_CreatePlugin ?env exampleInfo = Inr ?pl" by (simp add: exampleEnv_def)
  have g: "pl_ConfigureProvider ?pl ?dsn = Inl ''bad credentials''" by simp
  have n: "\<not> IsCancelation exampleCo ''bad credentials''" by (simp add: exampleCo_def)
  have dl: "\<not> env_hasDeadline ?env" by (simp add: exampleEnv_def)
  have h: "\<forall>info\<in>set (attempted ?opts). failsBeforeFetch ?env ?dsn info"
    by (simp add: a failsBeforeFetch_def c)
  from early_failures_hidden[OF i d h, of exampleCo] obtain out where "\<exists>r.
      Fetch exampleCo ?env ?opts = Inr out \<and> out_res out = Some r
     \<and> \<not> fr_HasErrors r
     \<and> list_all fs_IsSuccess (out_saved out)
     \<and> (\<not> env_hasDeadline ?env \<longrightarrow> length (out_saved out) = length (attempted ?opts))
     \<and> (\<forall>info\<in>set (attempted ?opts). \<forall>x\<in>set (runnerDiags exampleCo ?env info ?dsn ?opts).
            \<not> isTelemetry exampleCo x \<longrightarrow> x \<in> set (out_diagnostics out))
     \<and> (\<forall>info\<in>set (attempted ?opts). \<forall>pl err.
            env_CreatePlugin ?env info = Inr pl \<and> pl_ConfigureProvider pl ?dsn = Inl err
            \<and> \<not> IsCancelation exampleCo err \<longrightarrow> HasErrors (runnerDiags exampleCo ?env info ?dsn ?opts))
     \<and> (\<forall>info\<in>set (attempted ?opts). \<forall>pl ds.
            env_CreatePlugin ?env info = Inr pl \<and> pl_ConfigureProvider pl ?dsn = Inr ds
            \<and> HasErrors ds \<longrightarrow> HasErrors (runnerDiags exampleCo ?env info ?dsn ?opts))
     \<and> (\<forall>info\<in>set (attempted ?opts). \<forall>pl ds.
            env_CreatePlugin ?env info = Inr pl \<and> pl_ConfigureProvider pl ?dsn = Inr ds
            \<and> \<not> HasErrors ds \<longrightarrow>
              HasErrors (fst (snd (executeFetch exampleCo pl info (opt_UpdateCallback ?opts)))))
     \<and> (\<forall>p. set (pfs_Diagnostics p)
              = (\<Union>e\<in>set (pfs_FetchedResources p). set (rfs_Diagnostics (snd e))))" ..
  then obtain r where all: "Fetch exampleCo ?env ?opts = Inr out \<and> out_res out = Some r
     \<and> \<not> fr_HasErrors r
     \<and> list_all fs_IsSuccess (out_saved out)
     \<and> (\<not> env_hasDeadline ?env \<longrightarrow> length (out_saved out) = length (attempted ?opts))
     \<and> (\<forall>info\<in>set (attempted ?opts). \<forall>x\<in>set (runnerDiags exampleCo ?env info ?dsn ?opts).
            \<not> isTelemetry exampleCo x \<longrightarrow> x \<in> set (out_diagnostics out))
     \<and> (\<forall>info\<in>set (attempted ?opts). \<forall>pl err.
            env_CreatePlugin ?env info = Inr pl \<and> pl_ConfigureProvider pl ?dsn = Inl err
            \<and> \<not> IsCancelation exampleCo err \<longrightarrow> HasErrors (runnerDiags exampleCo ?env info ?dsn ?opts))
     \<and> (\<forall>info\<in>set (attempted ?opts). \<forall>pl ds.
            env_CreatePlugin ?env info = Inr pl \<and> pl_ConfigureProvider pl ?dsn = Inr ds
            \<and> HasErrors ds \<longrightarrow> HasErrors (runnerDiags exampleCo ?env info ?dsn ?opts))
     \<and> (\<forall>info\<in>set (attempted ?opts). \<forall>pl ds.
            env_CreatePlugin ?env info = Inr pl \<and> pl_ConfigureProvider pl ?dsn = Inr ds
            \<and> \<not> HasErrors ds \<longrightarrow>
              HasErrors (fst (snd (executeFetch exampleCo pl info (opt_UpdateCallback ?opts)))))
     \<and> (\<forall>p. set (pfs_Diagnostics p)
              = (\<Union>e\<in>set (pfs_FetchedResources p). set (rfs_Diagnostics (snd e))))" ..
  note f = all[THEN conjunct1]
  note r = all[THEN conjunct2, THEN conjunct1]
  note ne = all[THEN conjunct2, THEN conjunct2, THEN conjunct1]
  note sv = all[THEN conjunct2, THEN conjunct2, THEN conjunct2, THEN conjunct1]
  note ln = all[THEN conjunct2, THEN conjunct2, THEN conjunct2, THEN conjunct2, THEN conjunct1]
  note incl = all[THEN conjunct2, THEN conjunct2, THEN conjunct2, THEN conjunct2, THEN conjunct2,
      THEN conjunct1]
  have rd: "runnerDiags exampleCo ?env exampleInfo ?dsn ?opts = FromError ''bad credentials'' INTERNAL []"
    using c n by (simp add: runnerDiags_def runProviderFetch_def)
  have nt: "\<not> isTelemetry exampleCo (NewBaseError ''bad credentials'' INTERNAL [])"
    by (simp add: exampleCo_def)
  have mem: "NewBaseError ''bad credentials'' INTERNAL []
      \<in> set (runnerDiags exampleCo ?env exampleInfo ?dsn ?opts)"
    unfolding rd by (simp add: FromError_def)
  have ia: "exampleInfo \<in> set (attempted ?opts)" unfolding a by simp
  have "NewBaseError ''bad credentials'' INTERNAL [] \<in> set (out_diagnostics out)"
    using incl[rule_format, OF ia mem nt] .
  moreover have "isError (NewBaseError ''bad credentials'' INTERNAL [])"
    by (simp add: isError_def NewBaseError_def)
  ultimately have he: "HasErrors (out_diagnostics out)"
    unfolding HasErrors_def list_ex_iff by blast
  have len: "length (out_saved out) = 1" using ln dl a by simp
  have p: "projr (Fetch exampleCo ?env ?opts) = out" unfolding f by simp
  have h': "failsBeforeFetch ?env ?dsn exampleInfo" using h a by simp
  show ?thesis unfolding p using i d a h' r ne sv len he by simp
qed

end
